theory Spec2Isabelle
  imports Complex_Main
begin

section \<open>Python values and exceptions\<close>

text \<open>
  The deimoslang compiler (\<^verbatim>\<open>src/deimoslang/ir.py\<close>), its virtual machine
  (\<^verbatim>\<open>src/deimoslang/vm.py\<close>) and the task supervisor (\<^verbatim>\<open>src/task_watcher.py\<close>)
  are Python. Every raise of the source is a value of \<open>error\<close>; a function that can
  raise returns \<open>error + 'a\<close> with \<open>Inl\<close> for the exception.
\<close>

datatype vm_reason =
    Client_out_of_range
  | Unimplemented_expression
  | Unimplemented_unary_expression
  | Unimplemented_expression_type
  | Unimplemented_teleport_kind
  | Unimplemented_waitfor_kind
  | Unimplemented_deimos_call
  | Unable_to_find_label
  | Unable_to_log
  | Unable_to_find_window
  | Unimplemented_instruction

datatype compiler_reason =
    Unimplemented_log_kind
  | Unimplemented_command
  | Unknown_statement

datatype error =
    VMError vm_reason
  | CompilerError compiler_reason
  | AssertionError
  | IndexError
  | TypeError
  | AttributeError
  | ValueError
  | ExternalError string
  | ExceptionGroup "error list"

definition bind_err :: "error + 'a \<Rightarrow> ('a \<Rightarrow> error + 'b) \<Rightarrow> error + 'b" where
  "bind_err m f = (case m of Inl e \<Rightarrow> Inl e | Inr x \<Rightarrow> f x)"

definition py_assert :: "bool \<Rightarrow> (error + 'a) \<Rightarrow> error + 'a" where
  "py_assert b k = (if b then k else Inl AssertionError)"

text \<open>
  \<open>xs[i]\<close> of Python: a negative index counts from the end, an index outside
  \<open>-len(xs) .. len(xs) - 1\<close> raises IndexError.
\<close>

definition py_index :: "'a list \<Rightarrow> int \<Rightarrow> error + 'a" where
  "py_index xs i =
     (if 0 \<le> i \<and> i < int (length xs) then Inr (xs ! nat i)
      else if i < 0 \<and> - int (length xs) \<le> i then Inr (xs ! nat (int (length xs) + i))
      else Inl IndexError)"

text \<open>
  Modelled from the spec: \<^verbatim>\<open>PlayerSelector\<close> is declared in the parser, which is not
  part of the sources; the spec gives it as \<open>{mass: bool, inverted: bool, player_nums: set
  of int}\<close>, and \<^verbatim>\<open>_select_players\<close> reads exactly these three attributes.
\<close>

record PlayerSelector =
  mass :: bool
  inverted :: bool
  player_nums :: "int set"

text \<open>
  Modelled from the spec: the token, expression, command and statement classes come
  from the tokenizer and the parser, which are not part of the sources. Each class below
  has the attributes that \<^verbatim>\<open>ir.py\<close> and \<^verbatim>\<open>vm.py\<close> read, and one more alternative
  for every member or subclass that these two files do not name. Members of the enums
  \<^verbatim>\<open>LogKind\<close>, \<^verbatim>\<open>ExprKind\<close>, \<^verbatim>\<open>TeleportKind\<close> and \<^verbatim>\<open>WaitforKind\<close> are
  \<open>PEnum class member\<close>. The classes are compared structurally; Python floats are
  carried as reals (no NaN).
\<close>

datatype TokenKind = minus_tok | string_tok | identifier_tok | other_tok

datatype CommandKind =
    kill_cmd | sleep_cmd | log_cmd | sendkey_cmd | click_cmd | teleport_cmd | goto_cmd
  | usepotion_cmd | buypotions_cmd | relog_cmd | tozone_cmd | waitfor_cmd
  | load_playstyle_cmd | expr_cmd

fun CommandKind_name :: "CommandKind \<Rightarrow> string" where
  "CommandKind_name kill_cmd = ''kill''"
| "CommandKind_name sleep_cmd = ''sleep''"
| "CommandKind_name log_cmd = ''log''"
| "CommandKind_name sendkey_cmd = ''sendkey''"
| "CommandKind_name click_cmd = ''click''"
| "CommandKind_name teleport_cmd = ''teleport''"
| "CommandKind_name goto_cmd = ''goto''"
| "CommandKind_name usepotion_cmd = ''usepotion''"
| "CommandKind_name buypotions_cmd = ''buypotions''"
| "CommandKind_name relog_cmd = ''relog''"
| "CommandKind_name tozone_cmd = ''tozone''"
| "CommandKind_name waitfor_cmd = ''waitfor''"
| "CommandKind_name load_playstyle_cmd = ''load_playstyle''"
| "CommandKind_name expr_cmd = ''expr''"

datatype pyval =
    PNone
  | PBool bool
  | PInt int
  | PFloat real
  | PStr string
  | PList "pyval list"
  | PEnum string string
  | PSel PlayerSelector
  | PXYZ pyval pyval pyval
  | PTok Token
  | PExpr Expression
and Token =
    Token (tok_kind: TokenKind) (literal: string) (tok_value: pyval)
and Expression =
    CommandExpression Command
  | NumberExpression pyval
  | XYZExpression Expression Expression Expression
  | UnaryExpression Token Expression
  | StringExpression pyval
  | KeyExpression pyval
  | OtherExpression
and Command =
    Command (com_kind: CommandKind) (com_data: "pyval list")
            (com_player_selector: "PlayerSelector option")

text \<open>Truth value of a Python object, as \<^verbatim>\<open>if x:\<close> takes it.\<close>

fun truthy :: "pyval \<Rightarrow> bool" where
  "truthy PNone = False"
| "truthy (PBool b) = b"
| "truthy (PInt n) = (n \<noteq> 0)"
| "truthy (PFloat r) = (r \<noteq> 0)"
| "truthy (PStr s) = (s \<noteq> [])"
| "truthy (PList xs) = (xs \<noteq> [])"
| "truthy (PEnum c m) = True"
| "truthy (PSel s) = True"
| "truthy (PXYZ x y z) = True"
| "truthy (PTok t) = True"
| "truthy (PExpr e) = True"

text \<open>
  \<open>a == b\<close> of Python: booleans, ints and floats compare by their numeric value,
  lists element by element, everything else structurally.
\<close>

fun py_num :: "pyval \<Rightarrow> real option" where
  "py_num (PBool b) = Some (if b then 1 else 0)"
| "py_num (PInt n) = Some (real_of_int n)"
| "py_num (PFloat r) = Some r"
| "py_num v = None"

fun is_PList :: "pyval \<Rightarrow> bool" where
  "is_PList (PList xs) = True"
| "is_PList v = False"

fun py_eq :: "pyval \<Rightarrow> pyval \<Rightarrow> bool" where
  "py_eq a b =
     (case a of
        PList xs \<Rightarrow> (case b of PList ys \<Rightarrow> list_all2 py_eq xs ys | _ \<Rightarrow> False)
      | _ \<Rightarrow> (case (py_num a, py_num b) of
                (Some x, Some y) \<Rightarrow> x = y
              | _ \<Rightarrow> a = b))"

definition sel_val :: "PlayerSelector option \<Rightarrow> pyval" where
  "sel_val s = (case s of None \<Rightarrow> PNone | Some x \<Rightarrow> PSel x)"

section \<open>Instructions (ir.py)\<close>

datatype InstructionKind =
    kill | sleep | log_literal | log_window
  | jump | jump_if | jump_ifn
  | enter_until
  | label | ret | call | deimos_call
  | load_playstyle
  | set_var | dec_var
  | nop

fun InstructionKind_name :: "InstructionKind \<Rightarrow> string" where
  "InstructionKind_name kill = ''kill''"
| "InstructionKind_name sleep = ''sleep''"
| "InstructionKind_name log_literal = ''log_literal''"
| "InstructionKind_name log_window = ''log_window''"
| "InstructionKind_name jump = ''jump''"
| "InstructionKind_name jump_if = ''jump_if''"
| "InstructionKind_name jump_ifn = ''jump_ifn''"
| "InstructionKind_name enter_until = ''enter_until''"
| "InstructionKind_name label = ''label''"
| "InstructionKind_name ret = ''ret''"
| "InstructionKind_name call = ''call''"
| "InstructionKind_name deimos_call = ''deimos_call''"
| "InstructionKind_name load_playstyle = ''load_playstyle''"
| "InstructionKind_name set_var = ''set_var''"
| "InstructionKind_name dec_var = ''dec_var''"
| "InstructionKind_name nop = ''nop''"

text \<open>\<^verbatim>\<open>Instruction(kind, data=None)\<close>: an absent payload is \<open>PNone\<close>.\<close>

record Instruction =
  kind :: InstructionKind
  data :: pyval

definition Instr :: "InstructionKind \<Rightarrow> pyval \<Rightarrow> Instruction" where
  "Instr k d = \<lparr>kind = k, data = d\<rparr>"

text \<open>
  \<^verbatim>\<open>Instruction.__repr__\<close>. The text of the payload, \<^verbatim>\<open>f"{self.data}"\<close>, is the
  parameter \<open>fmt\<close> (the \<^verbatim>\<open>__str__\<close> methods of the payload classes are outside the
  sources). The source tests \<^verbatim>\<open>if self.data:\<close>, the truth value of the payload.
\<close>

definition repr :: "(pyval \<Rightarrow> string) \<Rightarrow> Instruction \<Rightarrow> string" where
  "repr fmt i =
     (if truthy (data i) then InstructionKind_name (kind i) @ '' '' @ fmt (data i)
      else InstructionKind_name (kind i))"

section \<open>The compiler (ir.py)\<close>

text \<open>
  Modelled from the spec: the statement classes of the parser, with the attributes that
  \<^verbatim>\<open>compile_stmt\<close> reads. A body or a branch is the list \<^verbatim>\<open>.stmts\<close> of the
  statement list it holds. \<open>IfStmt expr branch_true branch_false\<close>.
\<close>

datatype Stmt =
    StmtList "Stmt list"
  | CommandStmt Command
  | BlockDefStmt pyval "Stmt list"
  | IfStmt Expression "Stmt list" "Stmt list"
  | WhileStmt Expression "Stmt list"
  | UntilStmt Expression "Stmt list"
  | LoopStmt "Stmt list"
  | CallStmt pyval
  | SetVarStmt pyval Expression
  | DecVarStmt pyval
  | OtherStmt

text \<open>
  The compiler appends to \<^verbatim>\<open>self._program\<close>; the model returns the instructions
  that one call appends, in order. An exception leaves no program behind, as in the
  source, where it propagates out of \<^verbatim>\<open>compile\<close>.
\<close>

definition emit_deimos_call :: "Command \<Rightarrow> Instruction list" where
  "emit_deimos_call com =
     [Instr deimos_call
        (PList [sel_val (com_player_selector com),
                PStr (CommandKind_name (com_kind com)),
                PList (com_data com)])]"

definition compile_waitfor :: "Command \<Rightarrow> error + Instruction list" where
  "compile_waitfor com =
     (if length (com_data com) < 2 then Inl IndexError
      else
        let data1 = (com_data com)[1 := PBool False];
            non_inverted_com = Command (com_kind com) data1 (com_player_selector com)
        in Inr (emit_deimos_call non_inverted_com @
                (if py_eq (com_data com ! 1) (PBool True) then emit_deimos_call com else [])))"

definition compile_log :: "Command \<Rightarrow> error + Instruction list" where
  "compile_log com =
     bind_err (py_index (com_data com) 0) (\<lambda>d0.
       if py_eq d0 (PEnum ''LogKind'' ''window'') then
         bind_err (py_index (com_data com) 1) (\<lambda>d1.
           Inr [Instr log_window (PList [sel_val (com_player_selector com), d1])])
       else if py_eq d0 (PEnum ''LogKind'' ''literal'') then
         Inr [Instr log_literal (PList (drop 1 (com_data com)))]
       else Inl (CompilerError Unimplemented_log_kind))"

definition compile_command :: "Command \<Rightarrow> error + Instruction list" where
  "compile_command com =
     (case com_kind com of
        kill_cmd \<Rightarrow> Inr [Instr kill PNone]
      | sleep_cmd \<Rightarrow> bind_err (py_index (com_data com) 0) (\<lambda>d0. Inr [Instr sleep d0])
      | log_cmd \<Rightarrow> compile_log com
      | sendkey_cmd \<Rightarrow> Inr (emit_deimos_call com)
      | click_cmd \<Rightarrow> Inr (emit_deimos_call com)
      | teleport_cmd \<Rightarrow> Inr (emit_deimos_call com)
      | goto_cmd \<Rightarrow> Inr (emit_deimos_call com)
      | usepotion_cmd \<Rightarrow> Inr (emit_deimos_call com)
      | buypotions_cmd \<Rightarrow> Inr (emit_deimos_call com)
      | relog_cmd \<Rightarrow> Inr (emit_deimos_call com)
      | tozone_cmd \<Rightarrow> Inr (emit_deimos_call com)
      | waitfor_cmd \<Rightarrow> compile_waitfor com
      | load_playstyle_cmd \<Rightarrow>
          bind_err (py_index (com_data com) 0) (\<lambda>d0. Inr [Instr load_playstyle d0])
      | expr_cmd \<Rightarrow> Inl (CompilerError Unimplemented_command))"

fun compile_stmt :: "Stmt \<Rightarrow> error + Instruction list"
  and compile :: "Stmt list \<Rightarrow> error + Instruction list" where
  "compile [] = Inr []"
| "compile (stmt # stmts) =
     (case compile_stmt stmt of
        Inl e \<Rightarrow> Inl e
      | Inr a \<Rightarrow> (case compile stmts of Inl e \<Rightarrow> Inl e | Inr b \<Rightarrow> Inr (a @ b)))"
| "compile_stmt (StmtList stmts) = compile stmts"
| "compile_stmt (CommandStmt com) = compile_command com"
| "compile_stmt (BlockDefStmt ident body) =
     (case compile body of
        Inl e \<Rightarrow> Inl e
      | Inr instrs_body \<Rightarrow>
          Inr ([Instr jump (PInt (int (length instrs_body) + 3)), Instr label ident]
               @ instrs_body @ [Instr ret PNone, Instr nop PNone]))"
| "compile_stmt (IfStmt expr branch_true branch_false) =
     (case compile branch_false of
        Inl e \<Rightarrow> Inl e
      | Inr instrs_false \<Rightarrow>
          (case compile branch_true of
             Inl e \<Rightarrow> Inl e
           | Inr instrs_true \<Rightarrow>
               Inr ([Instr jump_if (PList [PExpr expr, PInt (int (length instrs_false) + 2)])]
                    @ instrs_false
                    @ [Instr jump (PInt (int (length instrs_true) + 1))]
                    @ instrs_true
                    @ [Instr nop PNone])))"
| "compile_stmt (WhileStmt expr body) =
     (case compile body of
        Inl e \<Rightarrow> Inl e
      | Inr b \<Rightarrow>
          (let instrs_body = b @ [Instr jump_if (PList [PExpr expr, PInt (- int (length b))])]
           in Inr ([Instr jump_ifn (PList [PExpr expr, PInt (int (length instrs_body) + 1)])]
                   @ instrs_body @ [Instr nop PNone])))"
| "compile_stmt (UntilStmt expr body) =
     (case compile body of
        Inl e \<Rightarrow> Inl e
      | Inr b \<Rightarrow>
          (let instrs_body = b @ [Instr jump (PInt (- int (length b)))]
           in Inr ([Instr enter_until (PList [PExpr expr, PInt (int (length instrs_body) + 1)])]
                   @ instrs_body @ [Instr nop PNone])))"
| "compile_stmt (LoopStmt body) =
     (case compile body of
        Inl e \<Rightarrow> Inl e
      | Inr b \<Rightarrow> Inr (b @ [Instr jump (PInt (- int (length b)))]))"
| "compile_stmt (CallStmt ident) = Inr [Instr call ident, Instr nop PNone]"
| "compile_stmt (SetVarStmt ident expr) =
     Inr [Instr set_var (PList [ident, PExpr expr])]"
| "compile_stmt (DecVarStmt ident) = Inr [Instr dec_var ident]"
| "compile_stmt OtherStmt = Inl (CompilerError Unknown_statement)"

section \<open>The virtual machine (vm.py)\<close>

text \<open>
  \<^verbatim>\<open>VM._select_players\<close>: the two \<^verbatim>\<open>for i, c in enumerate(self._clients)\<close>
  loops, with the index \<open>i\<close> and the list \<open>result\<close> as arguments.
\<close>

fun select_inverted :: "int set \<Rightarrow> nat \<Rightarrow> 'c list \<Rightarrow> 'c list \<Rightarrow> 'c list" where
  "select_inverted nums i [] result = result"
| "select_inverted nums i (c # cs) result =
     (if int i \<in> nums then select_inverted nums (Suc i) cs result
      else select_inverted nums (Suc i) cs (result @ [c]))"

fun select_included :: "int set \<Rightarrow> nat \<Rightarrow> 'c list \<Rightarrow> 'c list \<Rightarrow> 'c list" where
  "select_included nums i [] result = result"
| "select_included nums i (c # cs) result =
     (if int i \<in> nums then select_included nums (Suc i) cs (result @ [c])
      else select_included nums (Suc i) cs result)"

definition select_players :: "'c list \<Rightarrow> PlayerSelector \<Rightarrow> 'c list" where
  "select_players clients selector =
     (if mass selector then clients
      else if inverted selector then select_inverted (player_nums selector) 0 clients []
      else select_included (player_nums selector) 0 clients [])"

text \<open>\<^verbatim>\<open>VM.player_by_num\<close>: only \<open>i >= len(self._clients)\<close> is tested before indexing.\<close>

definition player_by_num :: "'c list \<Rightarrow> int \<Rightarrow> error + 'c" where
  "player_by_num clients num =
     (let i = num - 1
      in if i \<ge> int (length clients) then Inl (VMError Client_out_of_range)
         else py_index clients i)"

text \<open>
  What the game clients answer while one instruction runs. The queries are awaited
  calls into wizwalker and \<^verbatim>\<open>src.utils\<close>, outside the sources; a fan-out of
  per-client tasks under \<^verbatim>\<open>asyncio.TaskGroup\<close> is represented by its joined outcome,
  \<open>None\<close> when every task finished and the raised exception otherwise.
\<close>

record 'c env =
  is_visible_by_path :: "'c \<Rightarrow> pyval \<Rightarrow> bool"
  zone_name :: "'c \<Rightarrow> string"
  get_window_from_path :: "'c \<Rightarrow> pyval \<Rightarrow> bool"
  fan_out :: "string \<Rightarrow> 'c list \<Rightarrow> pyval list \<Rightarrow> error option"

record 'c VM =
  clients :: "'c list"
  program :: "Instruction list"
  running :: bool
  killed :: bool
  ip :: int
  callstack :: "int list"

definition reset :: "'c VM \<Rightarrow> 'c VM" where
  "reset vm = vm\<lparr>program := [], ip := 0, callstack := []\<rparr>"

definition stop :: "'c VM \<Rightarrow> 'c VM" where
  "stop vm = vm\<lparr>running := False\<rparr>"

definition kill_vm :: "'c VM \<Rightarrow> 'c VM" where
  "kill_vm vm = (stop vm)\<lparr>killed := True\<rparr>"

text \<open>An attribute of a selector read from a payload that is no selector: AttributeError.\<close>

definition select_players_val :: "'c list \<Rightarrow> pyval \<Rightarrow> error + 'c list" where
  "select_players_val cl v =
     (case v of PSel selector \<Rightarrow> Inr (select_players cl selector) | _ \<Rightarrow> Inl AttributeError)"

text \<open>
  \<^verbatim>\<open>player_by_num(tok.value)\<close> for a value that is not an int: \<open>num - 1\<close> raises
  TypeError on a non-number; a float passes the guard or fails it and then cannot index.
\<close>

definition player_by_num_val :: "'c list \<Rightarrow> pyval \<Rightarrow> error + 'c" where
  "player_by_num_val cl v =
     (case v of
        PTok t \<Rightarrow>
          (case tok_value t of
             PInt n \<Rightarrow> player_by_num cl n
           | PBool b \<Rightarrow> player_by_num cl (if b then 1 else 0)
           | PFloat r \<Rightarrow>
               if r - 1 \<ge> real (length cl) then Inl (VMError Client_out_of_range)
               else Inl TypeError
           | _ \<Rightarrow> Inl TypeError)
      | _ \<Rightarrow> Inl AttributeError)"

fun all_visible :: "'c env \<Rightarrow> pyval list \<Rightarrow> 'c list \<Rightarrow> error + pyval" where
  "all_visible orc d [] = Inr (PBool True)"
| "all_visible orc d (client # rest) =
     (case py_index d 1 of
        Inl e \<Rightarrow> Inl e
      | Inr path \<Rightarrow>
          if \<not> is_visible_by_path orc client path then Inr (PBool False)
          else all_visible orc d rest)"

fun join_strs :: "string \<Rightarrow> pyval list \<Rightarrow> error + string" where
  "join_strs sep [] = Inr []"
| "join_strs sep [PStr s] = Inr s"
| "join_strs sep (PStr s # rest) =
     (case join_strs sep rest of Inl e \<Rightarrow> Inl e | Inr r \<Rightarrow> Inr (s @ sep @ r))"
| "join_strs sep (v # rest) = Inl TypeError"

definition py_join :: "string \<Rightarrow> pyval \<Rightarrow> error + string" where
  "py_join sep v =
     (case v of
        PList xs \<Rightarrow> join_strs sep xs
      | PStr s \<Rightarrow> join_strs sep (map (\<lambda>c. PStr [c]) s)
      | _ \<Rightarrow> Inl TypeError)"

fun all_in_zone :: "'c env \<Rightarrow> pyval list \<Rightarrow> 'c list \<Rightarrow> error + pyval" where
  "all_in_zone orc d [] = Inr (PBool True)"
| "all_in_zone orc d (client # rest) =
     (case py_index d 1 of
        Inl e \<Rightarrow> Inl e
      | Inr parts \<Rightarrow>
          (case py_join ''/'' parts of
             Inl e \<Rightarrow> Inl e
           | Inr expected \<Rightarrow>
               if expected \<noteq> zone_name orc client then Inr (PBool False)
               else all_in_zone orc d rest))"

fun is_ExprKind :: "pyval \<Rightarrow> bool" where
  "is_ExprKind (PEnum c m) = (c = ''ExprKind'')"
| "is_ExprKind v = False"

fun enum_member :: "pyval \<Rightarrow> string" where
  "enum_member (PEnum c m) = m"
| "enum_member v = []"

text \<open>\<^verbatim>\<open>VM._eval_command_expression\<close>.\<close>

definition eval_command_expression :: "'c env \<Rightarrow> 'c list \<Rightarrow> Command \<Rightarrow> error + pyval" where
  "eval_command_expression orc cl com =
     py_assert (com_kind com = expr_cmd)
       (bind_err (py_index (com_data com) 0) (\<lambda>k.
          py_assert (is_ExprKind k)
            (case com_player_selector com of
               None \<Rightarrow> Inl AssertionError
             | Some selector \<Rightarrow>
                 (let selected = select_players cl selector in
                  if enum_member k = ''window_visible'' then
                    all_visible orc (com_data com) selected
                  else if enum_member k = ''in_zone'' then
                    all_in_zone orc (com_data com) selected
                  else if enum_member k = ''same_zone'' then
                    bind_err (py_index (com_data com) 1) (\<lambda>t1.
                    bind_err (player_by_num_val cl t1) (\<lambda>a.
                    bind_err (py_index (com_data com) 2) (\<lambda>t2.
                    bind_err (player_by_num_val cl t2) (\<lambda>b.
                      Inr (PBool (zone_name orc a = zone_name orc b))))))
                  else Inl (VMError Unimplemented_expression)))))"

text \<open>Unary minus of Python on the numbers; any other operand is answered TypeError.\<close>

fun py_neg :: "pyval \<Rightarrow> error + pyval" where
  "py_neg (PInt n) = Inr (PInt (- n))"
| "py_neg (PFloat r) = Inr (PFloat (- r))"
| "py_neg (PBool b) = Inr (PInt (if b then - 1 else 0))"
| "py_neg v = Inl TypeError"

text \<open>
  \<^verbatim>\<open>VM.eval\<close>. The parameter \<^verbatim>\<open>client\<close> of the source is passed along and never
  read, so the model leaves it out.
\<close>

fun vm_eval :: "'c env \<Rightarrow> 'c list \<Rightarrow> Expression \<Rightarrow> error + pyval" where
  "vm_eval orc cl (CommandExpression com) = eval_command_expression orc cl com"
| "vm_eval orc cl (NumberExpression n) = Inr n"
| "vm_eval orc cl (XYZExpression x y z) =
     (case vm_eval orc cl x of
        Inl e \<Rightarrow> Inl e
      | Inr a \<Rightarrow>
          (case vm_eval orc cl y of
             Inl e \<Rightarrow> Inl e
           | Inr b \<Rightarrow>
               (case vm_eval orc cl z of
                  Inl e \<Rightarrow> Inl e
                | Inr c \<Rightarrow> Inr (PXYZ a b c))))"
| "vm_eval orc cl (UnaryExpression operator expr) =
     (case tok_kind operator of
        minus_tok \<Rightarrow> (case vm_eval orc cl expr of Inl e \<Rightarrow> Inl e | Inr v \<Rightarrow> py_neg v)
      | _ \<Rightarrow> Inl (VMError Unimplemented_unary_expression))"
| "vm_eval orc cl (StringExpression s) = Inr s"
| "vm_eval orc cl (KeyExpression k) = Inr k"
| "vm_eval orc cl OtherExpression = Inl (VMError Unimplemented_expression_type)"

definition vm_eval_val :: "'c env \<Rightarrow> 'c list \<Rightarrow> pyval \<Rightarrow> error + pyval" where
  "vm_eval_val orc cl v =
     (case v of
        PExpr e \<Rightarrow> vm_eval orc cl e
      | _ \<Rightarrow> Inl (VMError Unimplemented_expression_type))"

text \<open>
  \<^verbatim>\<open>VM.exec_deimos_call\<close>: the assertions, the selector, the dispatch on the action
  name and on the teleport and waitfor kinds. An exception raised in the body of a task
  group leaves it wrapped in an exception group.
\<close>

definition teleport_kinds :: "string list" where
  "teleport_kinds =
     [''position'', ''entity_literal'', ''entity_vague'', ''mob'', ''quest'',
      ''friend_icon'', ''friend_name'']"

fun is_PBool :: "pyval \<Rightarrow> bool" where
  "is_PBool (PBool b) = True"
| "is_PBool v = False"

fun is_PFloat :: "pyval \<Rightarrow> bool" where
  "is_PFloat (PFloat r) = True"
| "is_PFloat v = False"

fun is_enum_of :: "string \<Rightarrow> pyval \<Rightarrow> bool" where
  "is_enum_of cls (PEnum c m) = (c = cls)"
| "is_enum_of cls v = False"

definition outcome :: "error option \<Rightarrow> error + unit" where
  "outcome r = (case r of None \<Rightarrow> Inr () | Some e \<Rightarrow> Inl e)"

definition exec_teleport :: "'c env \<Rightarrow> 'c list \<Rightarrow> pyval \<Rightarrow> error + unit" where
  "exec_teleport orc selected args =
     (case args of
        PList a \<Rightarrow>
          bind_err (py_index a 0) (\<lambda>k.
            py_assert (is_enum_of ''TeleportKind'' k)
              (if enum_member k \<in> set teleport_kinds then outcome (fan_out orc ''teleport'' selected a)
               else Inl (ExceptionGroup [VMError Unimplemented_teleport_kind])))
      | _ \<Rightarrow> Inl AssertionError)"

definition exec_goto :: "'c env \<Rightarrow> 'c list \<Rightarrow> pyval \<Rightarrow> error + unit" where
  "exec_goto orc selected args =
     (case args of
        PList a \<Rightarrow> outcome (fan_out orc ''goto'' selected a)
      | _ \<Rightarrow> Inl AssertionError)"

text \<open>
  The \<^verbatim>\<open>waitfor\<close> case: \<^verbatim>\<open>completion = args[-1]\<close> with its assertion, the lookup
  of \<^verbatim>\<open>args[0]\<close> in \<^verbatim>\<open>method_map\<close> (a list cannot be looked up: TypeError), then
  the \<^verbatim>\<open>match\<close> on the remaining kinds. A zone change waits in one task group and,
  with completion, for the loading state in a second one.
\<close>

definition exec_waitfor :: "'c env \<Rightarrow> 'c list \<Rightarrow> pyval \<Rightarrow> error + unit" where
  "exec_waitfor orc selected args =
     (case args of
        PList a \<Rightarrow>
          bind_err (py_index a (- 1)) (\<lambda>completion.
            py_assert (is_PBool completion)
              (bind_err (py_index a 0) (\<lambda>k.
                 if is_PList k then Inl TypeError
                 else if is_enum_of ''WaitforKind'' k
                    \<and> enum_member k \<in> {''dialog'', ''battle'', ''free''}
                 then outcome (fan_out orc ''waitfor'' selected a)
                 else if is_enum_of ''WaitforKind'' k \<and> enum_member k = ''zonechange''
                 then bind_err (outcome (fan_out orc ''waitfor'' selected a)) (\<lambda>u.
                        if completion = PBool True
                        then outcome (fan_out orc ''waitfor_loading'' selected a)
                        else Inr ())
                 else if is_enum_of ''WaitforKind'' k \<and> enum_member k = ''window''
                 then bind_err (py_index a 1) (\<lambda>window_path.
                        outcome (fan_out orc ''waitfor'' selected a))
                 else Inl (VMError Unimplemented_waitfor_kind))))
      | PStr s \<Rightarrow> (if s = [] then Inl IndexError else Inl AssertionError)
      | _ \<Rightarrow> Inl TypeError)"

definition exec_deimos_call :: "'c env \<Rightarrow> 'c list \<Rightarrow> Instruction \<Rightarrow> error + unit" where
  "exec_deimos_call orc cl instruction =
     py_assert (kind instruction = deimos_call)
       (case data instruction of
          PList d \<Rightarrow>
            bind_err (py_index d 0) (\<lambda>selector.
            bind_err (select_players_val cl selector) (\<lambda>selected.
            bind_err (py_index d 1) (\<lambda>name.
              if name = PStr ''teleport'' then
                bind_err (py_index d 2) (exec_teleport orc selected)
              else if name = PStr ''goto'' then
                bind_err (py_index d 2) (exec_goto orc selected)
              else if name = PStr ''waitfor'' then
                bind_err (py_index d 2) (exec_waitfor orc selected)
              else Inl (VMError Unimplemented_deimos_call))))
        | _ \<Rightarrow> Inl AssertionError)"

text \<open>
  The label scan of \<^verbatim>\<open>call\<close>: \<^verbatim>\<open>while True: j -= 1; if j < 0: raise ...\<close>, from
  \<open>j = self._ip\<close> downwards, until \<open>program[j]\<close> is a label whose payload equals the
  wanted one.
\<close>

function call_scan :: "Instruction list \<Rightarrow> pyval \<Rightarrow> int \<Rightarrow> error + int" where
  "call_scan prog wanted j =
     (if j - 1 < 0 then Inl (VMError Unable_to_find_label)
      else case py_index prog (j - 1) of
             Inl e \<Rightarrow> Inl e
           | Inr x \<Rightarrow>
               if kind x \<noteq> label \<or> \<not> py_eq (data x) wanted then call_scan prog wanted (j - 1)
               else Inr (j - 1))"
  by pat_completeness auto
termination
  by (relation "measure (\<lambda>(prog, wanted, j). nat j)") auto

text \<open>
  \<^verbatim>\<open>self._ip += offset\<close> for an offset read from a payload. The compiler emits
  ints. A float offset would make the pointer a float, on which the next indexing of
  the program raises TypeError; the model, whose pointer is an int, raises it here.
\<close>

fun py_add_int :: "int \<Rightarrow> pyval \<Rightarrow> error + int" where
  "py_add_int i (PInt n) = Inr (i + n)"
| "py_add_int i (PBool b) = Inr (i + (if b then 1 else 0))"
| "py_add_int i v = Inl TypeError"

fun log_strs :: "pyval list \<Rightarrow> error + pyval list" where
  "log_strs [] = Inr []"
| "log_strs (PTok x # rest) =
     (case tok_kind x of
        string_tok \<Rightarrow>
          (case log_strs rest of Inl e \<Rightarrow> Inl e | Inr strs \<Rightarrow> Inr (tok_value x # strs))
      | identifier_tok \<Rightarrow>
          (case log_strs rest of Inl e \<Rightarrow> Inl e | Inr strs \<Rightarrow> Inr (PStr (literal x) # strs))
      | _ \<Rightarrow> Inl (VMError Unable_to_log))"
| "log_strs (v # rest) = Inl AttributeError"

fun log_windows :: "'c env \<Rightarrow> pyval \<Rightarrow> 'c list \<Rightarrow> error + unit" where
  "log_windows orc path [] = Inr ()"
| "log_windows orc path (client # rest) =
     (if \<not> get_window_from_path orc client path
      then Inl (ExceptionGroup [VMError Unable_to_find_window])
      else log_windows orc path rest)"

definition advance :: "'c VM \<Rightarrow> 'c VM" where
  "advance vm = vm\<lparr>ip := ip vm + 1\<rparr>"

definition exec_jump_cond :: "'c env \<Rightarrow> 'c VM \<Rightarrow> bool \<Rightarrow> pyval \<Rightarrow> error + 'c VM" where
  "exec_jump_cond orc vm when d =
     (case d of
        PList xs \<Rightarrow>
          bind_err (py_index xs 0) (\<lambda>cond.
          bind_err (vm_eval_val orc (clients vm) cond) (\<lambda>v.
            if truthy v = when then
              bind_err (py_index xs 1) (\<lambda>offset.
              bind_err (py_add_int (ip vm) offset) (\<lambda>i. Inr (vm\<lparr>ip := i\<rparr>)))
            else Inr (advance vm)))
      | _ \<Rightarrow> Inl AssertionError)"

definition exec_call :: "'c VM \<Rightarrow> pyval \<Rightarrow> error + 'c VM" where
  "exec_call vm wanted =
     (case call_scan (program vm) wanted (ip vm) of
        Inl e \<Rightarrow> Inl e
      | Inr j \<Rightarrow> Inr (vm\<lparr>callstack := callstack vm @ [ip vm + 1], ip := j\<rparr>))"

definition exec_ret :: "'c VM \<Rightarrow> error + 'c VM" where
  "exec_ret vm =
     (if callstack vm = [] then Inl IndexError
      else Inr (vm\<lparr>ip := last (callstack vm), callstack := butlast (callstack vm)\<rparr>))"

text \<open>The \<^verbatim>\<open>match instruction.kind\<close> of \<^verbatim>\<open>VM.step\<close>, one branch per case.\<close>

definition exec_instruction :: "'c env \<Rightarrow> 'c VM \<Rightarrow> Instruction \<Rightarrow> error + 'c VM" where
  "exec_instruction orc vm instruction =
     (case kind instruction of
        kill \<Rightarrow> Inr (kill_vm vm)
      | sleep \<Rightarrow>
          py_assert (data instruction \<noteq> PNone)
            (bind_err (vm_eval_val orc (clients vm) (data instruction)) (\<lambda>time.
               py_assert (is_PFloat time) (Inr (advance vm))))
      | jump \<Rightarrow>
          (case data instruction of
             PInt n \<Rightarrow> Inr (vm\<lparr>ip := ip vm + n\<rparr>)
           | _ \<Rightarrow> Inl AssertionError)
      | jump_if \<Rightarrow> exec_jump_cond orc vm True (data instruction)
      | jump_ifn \<Rightarrow> exec_jump_cond orc vm False (data instruction)
      | call \<Rightarrow> exec_call vm (data instruction)
      | ret \<Rightarrow> exec_ret vm
      | log_literal \<Rightarrow>
          (case data instruction of
             PList xs \<Rightarrow>
               bind_err (log_strs xs) (\<lambda>strs.
               bind_err (join_strs '' '' strs) (\<lambda>s. Inr (advance vm)))
           | _ \<Rightarrow> Inl AssertionError)
      | log_window \<Rightarrow>
          (case data instruction of
             PList xs \<Rightarrow>
               bind_err (py_index xs 0) (\<lambda>selector.
               bind_err (select_players_val (clients vm) selector) (\<lambda>selected.
               bind_err (py_index xs 1) (\<lambda>path.
               bind_err (log_windows orc path selected) (\<lambda>u. Inr (advance vm)))))
           | _ \<Rightarrow> Inl AssertionError)
      | label \<Rightarrow> Inr (advance vm)
      | deimos_call \<Rightarrow>
          bind_err (exec_deimos_call orc (clients vm) instruction) (\<lambda>u. Inr (advance vm))
      | enter_until \<Rightarrow> Inl (VMError Unimplemented_instruction)
      | load_playstyle \<Rightarrow> Inl (VMError Unimplemented_instruction)
      | set_var \<Rightarrow> Inl (VMError Unimplemented_instruction)
      | dec_var \<Rightarrow> Inl (VMError Unimplemented_instruction)
      | nop \<Rightarrow> Inl (VMError Unimplemented_instruction))"

text \<open>
  \<^verbatim>\<open>VM.step\<close>: nothing when the machine is not running; otherwise the instruction
  at the pointer, and the stop when the pointer has reached the end of the program.
\<close>

definition step :: "'c env \<Rightarrow> 'c VM \<Rightarrow> error + 'c VM" where
  "step orc vm =
     (if \<not> running vm then Inr vm
      else
        bind_err (py_index (program vm) (ip vm)) (\<lambda>instruction.
        bind_err (exec_instruction orc vm instruction) (\<lambda>vm'.
          if ip vm' \<ge> int (length (program vm')) then Inr (stop vm') else Inr vm')))"

text \<open>
  \<open>n\<close> consecutive calls of \<open>step\<close>, as the driver \<^verbatim>\<open>VM.run\<close> makes them. The
  clients answer the call number \<open>t\<close> with \<open>world t\<close>. The result holds the pointers
  at which the calls started, in order, and the machine after the last call.
\<close>

fun steps :: "(nat \<Rightarrow> 'c env) \<Rightarrow> nat \<Rightarrow> nat \<Rightarrow> 'c VM \<Rightarrow> error + (int list \<times> 'c VM)" where
  "steps world t 0 vm = Inr ([], vm)"
| "steps world t (Suc n) vm =
     (case step (world t) vm of
        Inl e \<Rightarrow> Inl e
      | Inr vm' \<Rightarrow>
          (case steps world (Suc t) n vm' of
             Inl e \<Rightarrow> Inl e
           | Inr (trace, vm'') \<Rightarrow> Inr (ip vm # trace, vm'')))"

text \<open>A machine that was given clients, loaded a program and was set running.\<close>

definition loaded :: "'c list \<Rightarrow> Instruction list \<Rightarrow> 'c VM" where
  "loaded cl prog =
     \<lparr>clients = cl, program = prog, running = True, killed = False, ip = 0, callstack = []\<rparr>"

text \<open>Clients that answer no to every query and complete every action.\<close>

definition quiet_env :: "string env" where
  "quiet_env =
     \<lparr>is_visible_by_path = (\<lambda>c p. False), zone_name = (\<lambda>c. []),
      get_window_from_path = (\<lambda>c p. False), fan_out = (\<lambda>name cs args. None)\<rparr>"

definition quiet_world :: "nat \<Rightarrow> string env" where
  "quiet_world t = quiet_env"

text \<open>The instruction at index \<open>j\<close> is a label whose payload equals the wanted one.\<close>

definition label_at :: "Instruction list \<Rightarrow> pyval \<Rightarrow> int \<Rightarrow> bool" where
  "label_at prog wanted j = (kind (prog ! nat j) = label \<and> py_eq (data (prog ! nat j)) wanted)"

text \<open>
  The instructions at the given pointers, each executed by one \<open>step\<close>, one after
  another: control reaches each of them by instructions that leave the call stack as it
  is. The result holds the pointer after each of them and the machine after the last.
\<close>

fun run_at :: "'c env \<Rightarrow> int list \<Rightarrow> 'c VM \<Rightarrow> error + (int list \<times> 'c VM)" where
  "run_at orc [] vm = Inr ([], vm)"
| "run_at orc (p # ps) vm =
     (case step orc (vm\<lparr>ip := p\<rparr>) of
        Inl e \<Rightarrow> Inl e
      | Inr vm' \<Rightarrow>
          (case run_at orc ps vm' of
             Inl e \<Rightarrow> Inl e
           | Inr (after, vm'') \<Rightarrow> Inr (ip vm' # after, vm'')))"

section \<open>Polling waits (vm.py, inside exec_deimos_call)\<close>

text \<open>
  \<^verbatim>\<open>waitfor_coro(coro, invert)\<close>: \<^verbatim>\<open>while not (invert ^ await coro()): await
  asyncio.sleep(interval)\<close>. The predicate of one client is the sequence of its answers:
  \<open>coro k\<close> is the answer to poll number \<open>k\<close>, and the state that is passed is the
  number of polls made so far. The loop may run forever, which is the value \<open>None\<close>;
  a wait that ends returns the number of polls made when it ends.
\<close>

partial_function (option) waitfor_coro :: "(nat \<Rightarrow> bool) \<Rightarrow> bool \<Rightarrow> nat \<Rightarrow> nat option" where
  "waitfor_coro coro invert n =
     (if \<not> (invert \<noteq> coro n) then waitfor_coro coro invert (Suc n) else Some (Suc n))"

text \<open>
  \<^verbatim>\<open>waitfor_impl(coro)\<close> with the \<^verbatim>\<open>completion\<close> flag of the enclosing call:
  the wait for a true answer, then, with completion, the wait for a false one.
\<close>

definition waitfor_impl :: "(nat \<Rightarrow> bool) \<Rightarrow> bool \<Rightarrow> nat \<Rightarrow> nat option" where
  "waitfor_impl coro completion n =
     (case waitfor_coro coro False n of
        None \<Rightarrow> None
      | Some n1 \<Rightarrow> if completion then waitfor_coro coro True n1 else Some n1)"

text \<open>A predicate that answers the successive polls with the elements of a list.\<close>

definition poll_seq :: "bool list \<Rightarrow> nat \<Rightarrow> bool" where
  "poll_seq xs i = xs ! min i (length xs - 1)"

section \<open>The task supervisor (task_watcher.py)\<close>

text \<open>
  An asyncio task is its identity, a number; the event loop holds the state of every
  task and the identity the next created task gets. A task fails with an exception that
  is an instance of \<^verbatim>\<open>Exception\<close> (\<open>Exc\<close>) or only of \<^verbatim>\<open>BaseException\<close>
  (\<open>BaseExc\<close>). \<open>Cancelling\<close> is a task whose cancellation was requested and that
  has not finished yet.
\<close>

type_synonym Task = nat

datatype task_exc = Exc string | BaseExc string

fun is_Exception :: "task_exc \<Rightarrow> bool" where
  "is_Exception (Exc name) = True"
| "is_Exception (BaseExc name) = False"

datatype task_state = Pending | Cancelling | Finished | Failed task_exc | Cancelled

fun task_done :: "task_state \<Rightarrow> bool" where
  "task_done Pending = False"
| "task_done Cancelling = False"
| "task_done Finished = True"
| "task_done (Failed e) = True"
| "task_done Cancelled = True"

record event_loop =
  states :: "Task \<Rightarrow> task_state"
  next_task :: Task

definition create_task :: "event_loop \<Rightarrow> Task \<times> event_loop" where
  "create_task lp =
     (next_task lp,
      lp\<lparr>states := (states lp)(next_task lp := Pending), next_task := Suc (next_task lp)\<rparr>)"

definition cancel :: "event_loop \<Rightarrow> Task \<Rightarrow> event_loop" where
  "cancel lp task =
     (if task_done (states lp task) then lp else lp\<lparr>states := (states lp)(task := Cancelling)\<rparr>)"

text \<open>
  \<^verbatim>\<open>Task.exception()\<close>: the exception of a failed task, None for a task that
  returned; it raises CancelledError for a cancelled task.
\<close>

fun exception :: "task_state \<Rightarrow> task_exc + task_exc option" where
  "exception Cancelled = Inl (BaseExc ''CancelledError'')"
| "exception (Failed e) = Inr (Some e)"
| "exception Finished = Inr None"
| "exception Pending = Inl (Exc ''InvalidStateError'')"
| "exception Cancelling = Inl (Exc ''InvalidStateError'')"

text \<open>The watcher: \<^verbatim>\<open>_tasks\<close>, \<^verbatim>\<open>_running\<close>, \<^verbatim>\<open>_selftask\<close>.\<close>

record TaskWatcher =
  tw_tasks :: "Task list"
  tw_running :: bool
  tw_selftask :: "Task option"

definition init :: TaskWatcher where
  "init = \<lparr>tw_tasks = [], tw_running = False, tw_selftask = None\<rparr>"

definition register :: "TaskWatcher \<Rightarrow> Task \<Rightarrow> TaskWatcher" where
  "register w task = w\<lparr>tw_tasks := tw_tasks w @ [task]\<rparr>"

text \<open>
  \<^verbatim>\<open>unregister\<close>: the cancellation of an unfinished task reaches the event loop
  also when \<^verbatim>\<open>list.remove\<close> then raises ValueError for a task that is not registered.
\<close>

definition unregister :: "event_loop \<Rightarrow> TaskWatcher \<Rightarrow> Task \<Rightarrow> (error + TaskWatcher) \<times> event_loop" where
  "unregister lp w task =
     (let lp' = (if \<not> task_done (states lp task) then cancel lp task else lp)
      in if task \<in> set (tw_tasks w) then (Inr (w\<lparr>tw_tasks := remove1 task (tw_tasks w)\<rparr>), lp')
         else (Inl ValueError, lp'))"

definition new_task :: "event_loop \<Rightarrow> TaskWatcher \<Rightarrow> Task \<times> TaskWatcher \<times> event_loop" where
  "new_task lp w = (case create_task lp of (task, lp') \<Rightarrow> (task, register w task, lp'))"

text \<open>
  \<^verbatim>\<open>_tick\<close>: the loop over \<^verbatim>\<open>self._tasks\<close>, with the watcher passed through and
  returned next to the outcome (\<open>Inl\<close> the exception raised).
\<close>

fun tick_loop :: "event_loop \<Rightarrow> TaskWatcher \<Rightarrow> Task list \<Rightarrow> (task_exc + unit) \<times> TaskWatcher" where
  "tick_loop lp w [] = (Inr (), w)"
| "tick_loop lp w (task # rest) =
     (if \<not> task_done (states lp task) then tick_loop lp w rest
      else case exception (states lp task) of
             Inl raised \<Rightarrow> (Inl raised, w)
           | Inr exc \<Rightarrow>
               (case exc of
                  Some e \<Rightarrow> if is_Exception e then (Inl e, w) else tick_loop lp w rest
                | None \<Rightarrow> tick_loop lp w rest))"

definition tick :: "event_loop \<Rightarrow> TaskWatcher \<Rightarrow> (task_exc + unit) \<times> TaskWatcher" where
  "tick lp w = tick_loop lp w (tw_tasks w)"

text \<open>
  \<^verbatim>\<open>start_loop\<close>: the task created for \<^verbatim>\<open>__loop\<close> is returned with the watcher
  and the event loop that now holds it.
\<close>

definition start_loop :: "event_loop \<Rightarrow> TaskWatcher \<Rightarrow> error + (Task \<times> TaskWatcher \<times> event_loop)" where
  "start_loop lp w =
     (if tw_running w then
        (case tw_selftask w of
           None \<Rightarrow> Inl AssertionError
         | Some task \<Rightarrow> Inr (task, w, lp))
      else case create_task lp of
             (task, lp') \<Rightarrow> Inr (task, w\<lparr>tw_selftask := Some task\<rparr>, lp'))"

text \<open>
  Successive ticks, one at every given state of the event loop (the tasks go on
  running between two ticks), with the outcome of each.
\<close>

fun ticks :: "event_loop list \<Rightarrow> TaskWatcher \<Rightarrow> (task_exc + unit) list \<times> TaskWatcher" where
  "ticks [] w = ([], w)"
| "ticks (lp # lps) w =
     (case tick lp w of (r, w') \<Rightarrow> (case ticks lps w' of (rs, w'') \<Rightarrow> (r # rs, w'')))"

text \<open>Three watched tasks: one running, one failed, one finished.\<close>

definition failed_loop :: event_loop where
  "failed_loop =
     \<lparr>states = (\<lambda>t. if t = 0 then Pending else if t = 1 then Failed (Exc ''boom'') else Finished),
      next_task = 3\<rparr>"

definition watching :: TaskWatcher where
  "watching = \<lparr>tw_tasks = [0, 1, 2], tw_running = False, tw_selftask = None\<rparr>"

text \<open>A task at which \<^verbatim>\<open>_tick\<close> raises nothing.\<close>

definition quiet :: "task_state \<Rightarrow> bool" where
  "quiet st = (case st of Cancelled \<Rightarrow> False | Failed e \<Rightarrow> \<not> is_Exception e | _ \<Rightarrow> True)"

section \<open>Example programs\<close>

text \<open>An \<^verbatim>\<open>until\<close> statement with a one-command body, and what it compiles to.\<close>

definition until_stmt :: Stmt where
  "until_stmt =
     UntilStmt (NumberExpression (PInt 0))
       [CommandStmt (Command sleep_cmd [PExpr (NumberExpression (PFloat 1))] None)]"

definition until_code :: "Instruction list" where
  "until_code =
     [Instr enter_until (PList [PExpr (NumberExpression (PInt 0)), PInt 3]),
      Instr sleep (PExpr (NumberExpression (PFloat 1))),
      Instr jump (PInt (- 1)),
      Instr nop PNone]"






text \<open>
  A program with two blocks, \<open>b\<close> calling \<open>a\<close>, and a main part calling \<open>b\<close>;
  labels stand where the compiler would put a \<open>nop\<close>.
\<close>

definition nested_prog :: "Instruction list" where
  "nested_prog =
     [Instr jump (PInt 6),
      Instr label (PStr ''a''),
      Instr ret PNone,
      Instr label (PStr ''b''),
      Instr call (PStr ''a''),
      Instr ret PNone,
      Instr call (PStr ''b''),
      Instr label (PStr ''done'')]"

text \<open>
  Two watched tasks, the second failed: the first still running, then failed too, or
  cancelled.
\<close>

definition two_tasks :: TaskWatcher where
  "two_tasks = \<lparr>tw_tasks = [0, 1], tw_running = False, tw_selftask = None\<rparr>"

definition boom_pending :: event_loop where
  "boom_pending =
     \<lparr>states = (\<lambda>t. if t = 0 then Pending else Failed (Exc ''boom'')), next_task = 2\<rparr>"

definition boom_late :: event_loop where
  "boom_late =
     \<lparr>states = (\<lambda>t. if t = 0 then Failed (Exc ''late'') else Failed (Exc ''boom'')),
      next_task = 2\<rparr>"

definition boom_cancelled :: event_loop where
  "boom_cancelled =
     \<lparr>states = (\<lambda>t. if t = 0 then Cancelled else Failed (Exc ''boom'')), next_task = 2\<rparr>"

section \<open>Properties\<close>

lemma bind_err_Inl [simp]: "bind_err (Inl e) f = Inl e"
  by (simp add: bind_err_def)

lemma bind_err_Inr [simp]: "bind_err (Inr x) f = f x"
  by (simp add: bind_err_def)

lemma kind_Instr [simp]: "kind (Instr k d) = k"
  by (simp add: Instr_def)

lemma data_Instr [simp]: "data (Instr k d) = d"
  by (simp add: Instr_def)

declare py_eq.simps [simp del]

lemma py_eq_PBool_True [simp]:
  "py_eq (PBool True) (PBool True)" "\<not> py_eq (PBool False) (PBool True)"
  by (simp_all add: py_eq.simps)

subsection \<open>The textual form of an instruction\<close>

text \<open>
  C9. The textual form is the kind name followed by the payload whenever the payload is
  present (not None). The source tests the truth value of the payload instead, so a
  payload that is present and falsy is left out: the instruction \<open>jump 0\<close>, which
  \<^verbatim>\<open>compile_stmt\<close> emits for a \<^verbatim>\<open>loop\<close> with an empty body, renders as \<open>jump\<close>,
  and so does a \<open>log_literal\<close> of no tokens.
\<close>

theorem repr_drops_falsy_payload:
  "compile_stmt (LoopStmt []) = Inr [Instr jump (PInt 0)]
   \<and> data (Instr jump (PInt 0)) \<noteq> PNone
   \<and> repr fmt (Instr jump (PInt 0)) = ''jump''
   \<and> repr fmt (Instr log_literal (PList [])) = ''log_literal''"
  by (simp add: repr_def)

lemma repr_truthy:
  "truthy (data i) \<Longrightarrow> repr fmt i = InstructionKind_name (kind i) @ '' '' @ fmt (data i)"
  by (simp add: repr_def)

lemma repr_None: "data i = PNone \<Longrightarrow> repr fmt i = InstructionKind_name (kind i)"
  by (simp add: repr_def)

subsection \<open>Selector resolution\<close>

lemma select_included_nths:
  "select_included nums i cs result = result @ nths cs {j. int (i + j) \<in> nums}"
proof (induction cs arbitrary: i result)
  case Nil
  show ?case by simp
next
  case (Cons c cs)
  show ?case by (simp add: Cons.IH nths_Cons add.commute add.left_commute)
qed

lemma select_inverted_nths:
  "select_inverted nums i cs result = result @ nths cs {j. int (i + j) \<notin> nums}"
proof (induction cs arbitrary: i result)
  case Nil
  show ?case by simp
next
  case (Cons c cs)
  show ?case by (simp add: Cons.IH nths_Cons add.commute add.left_commute)
qed

text \<open>
  C7. Selector resolution has no raising path (the model is a plain function, and the
  result may be empty). With \<open>mass\<close> it is the whole client list; otherwise it is the
  clients whose 0-based index is in \<open>player_nums\<close>, or is not in it when the selector is
  inverted, in list order (\<open>nths\<close> keeps the elements at the given positions).
\<close>

theorem select_players_spec:
  "select_players cl selector =
     (if mass selector then cl
      else nths cl {i. (int i \<in> player_nums selector) \<noteq> inverted selector})"
  by (simp add: select_players_def select_included_nths select_inverted_nths)

theorem select_players_spec_witness:
  "select_players [''client0'', ''client1'', ''client2'']
      \<lparr>mass = False, inverted = False, player_nums = {0}\<rparr> = [''client0'']
   \<and> select_players [''client0'', ''client1'', ''client2'']
      \<lparr>mass = False, inverted = True, player_nums = {0}\<rparr> = [''client1'', ''client2'']
   \<and> select_players [''client0'', ''client1'', ''client2'']
      \<lparr>mass = True, inverted = False, player_nums = {0}\<rparr>
        = [''client0'', ''client1'', ''client2'']
   \<and> select_players [''client0'', ''client1'', ''client2'']
      \<lparr>mass = False, inverted = False, player_nums = {7}\<rparr> = []"
  using select_players_spec [of "[''client0'', ''client1'', ''client2'']"
          "\<lparr>mass = False, inverted = False, player_nums = {0}\<rparr>"]
        select_players_spec [of "[''client0'', ''client1'', ''client2'']"
          "\<lparr>mass = False, inverted = True, player_nums = {0}\<rparr>"]
        select_players_spec [of "[''client0'', ''client1'', ''client2'']"
          "\<lparr>mass = True, inverted = False, player_nums = {0}\<rparr>"]
        select_players_spec [of "[''client0'', ''client1'', ''client2'']"
          "\<lparr>mass = False, inverted = False, player_nums = {7}\<rparr>"]
  by (simp add: nths_Cons)

subsection \<open>Clients by number\<close>

lemma player_by_num_in_range:
  "1 \<le> num \<Longrightarrow> num \<le> int (length cl) \<Longrightarrow>
   player_by_num cl num = Inr (cl ! nat (num - 1))"
  by (simp add: player_by_num_def py_index_def Let_def)

lemma player_by_num_above:
  "int (length cl) < num \<Longrightarrow> player_by_num cl num = Inl (VMError Client_out_of_range)"
  by (simp add: player_by_num_def Let_def)

lemma player_by_num_below:
  "num \<le> 0 \<Longrightarrow>
   player_by_num cl num =
     (if - int (length cl) < num then Inr (cl ! nat (int (length cl) + (num - 1)))
      else Inl IndexError)"
  by (auto simp add: player_by_num_def py_index_def Let_def)

text \<open>
  C8. A number that is not between 1 and the number of open clients raises the VM
  runtime error. The source guards the upper end only: with one client open, number 0
  is answered with that client (index \<open>-1\<close> of Python counts from the end), and
  number \<open>-1\<close> raises IndexError, which is not a VM runtime error.
\<close>

theorem player_by_num_zero_returns_last:
  "player_by_num [c] 0 = Inr c
   \<and> player_by_num [c0, c1, c2] 0 = Inr c2
   \<and> player_by_num [c] (- 1) = Inl IndexError"
  by (simp add: player_by_num_def py_index_def)

subsection \<open>Compiling waitfor\<close>

text \<open>
  C6. A \<^verbatim>\<open>waitfor\<close> command whose flag, the data element at index 1, is true compiles
  to exactly two \<open>deimos_call\<close> instructions: the command with the flag set to false,
  then the command as it is. With a false flag it compiles to exactly one, the
  flag-false form.
\<close>

theorem compile_waitfor_split:
  assumes "com_kind com = waitfor_cmd" and "2 \<le> length (com_data com)"
  shows "(com_data com ! 1 = PBool True \<longrightarrow>
           compile_command com =
             Inr [Instr deimos_call
                    (PList [sel_val (com_player_selector com), PStr ''waitfor'',
                            PList ((com_data com)[1 := PBool False])]),
                  Instr deimos_call
                    (PList [sel_val (com_player_selector com), PStr ''waitfor'',
                            PList (com_data com)])])
       \<and> (com_data com ! 1 = PBool False \<longrightarrow>
           compile_command com =
             Inr [Instr deimos_call
                    (PList [sel_val (com_player_selector com), PStr ''waitfor'',
                            PList (com_data com)])])"
  using assms
  by (simp add: compile_command_def compile_waitfor_def emit_deimos_call_def Let_def
        list_update_same_conv)

theorem compile_waitfor_split_witness:
  "compile_command
     (Command waitfor_cmd [PEnum ''WaitforKind'' ''dialog'', PBool True]
        (Some \<lparr>mass = True, inverted = False, player_nums = {}\<rparr>))
   = Inr [Instr deimos_call
            (PList [PSel \<lparr>mass = True, inverted = False, player_nums = {}\<rparr>, PStr ''waitfor'',
                    PList [PEnum ''WaitforKind'' ''dialog'', PBool False]]),
          Instr deimos_call
            (PList [PSel \<lparr>mass = True, inverted = False, player_nums = {}\<rparr>, PStr ''waitfor'',
                    PList [PEnum ''WaitforKind'' ''dialog'', PBool True]])]
   \<and> compile_command
     (Command waitfor_cmd [PEnum ''WaitforKind'' ''dialog'', PBool False]
        (Some \<lparr>mass = True, inverted = False, player_nums = {}\<rparr>))
   = Inr [Instr deimos_call
            (PList [PSel \<lparr>mass = True, inverted = False, player_nums = {}\<rparr>, PStr ''waitfor'',
                    PList [PEnum ''WaitforKind'' ''dialog'', PBool False]])]"
  using compile_waitfor_split
          [of "Command waitfor_cmd [PEnum ''WaitforKind'' ''dialog'', PBool True]
                 (Some \<lparr>mass = True, inverted = False, player_nums = {}\<rparr>)"]
        compile_waitfor_split
          [of "Command waitfor_cmd [PEnum ''WaitforKind'' ''dialog'', PBool False]
                 (Some \<lparr>mass = True, inverted = False, player_nums = {}\<rparr>)"]
  by (simp add: sel_val_def)

subsection \<open>Polling waits\<close>

lemma waitfor_coro_returns:
  "n \<le> a \<Longrightarrow> (\<forall>i. n \<le> i \<and> i < a \<longrightarrow> coro i = invert) \<Longrightarrow> coro a \<noteq> invert \<Longrightarrow>
   waitfor_coro coro invert n = Some (Suc a)"
proof (induction "a - n" arbitrary: n)
  case 0
  then have "n = a" by simp
  with 0 show ?case by (subst waitfor_coro.simps) auto
next
  case (Suc k)
  then have lt: "n < a" by simp
  with Suc.prems have here: "coro n = invert" by simp
  have "waitfor_coro coro invert (Suc n) = Some (Suc a)"
    using Suc.hyps Suc.prems lt by (intro Suc.hyps(1)) auto
  with here show ?case by (subst waitfor_coro.simps) auto
qed

lemma waitfor_coro_sound:
  assumes r: "waitfor_coro coro invert n = Some m"
  shows "n < m \<and> coro (m - 1) \<noteq> invert \<and> (\<forall>i. n \<le> i \<and> i < m - 1 \<longrightarrow> coro i = invert)"
proof (rule waitfor_coro.raw_induct
    [where P = "\<lambda>c v k y. k < y \<and> c (y - 1) \<noteq> v \<and> (\<forall>i. k \<le> i \<and> i < y - 1 \<longrightarrow> c i = v)", OF _ r])
  fix f :: "(nat \<Rightarrow> bool) \<Rightarrow> bool \<Rightarrow> nat \<Rightarrow> nat option" and c v k y
  assume ih: "\<And>c v k y. f c v k = Some y \<Longrightarrow>
                k < y \<and> c (y - 1) \<noteq> v \<and> (\<forall>i. k \<le> i \<and> i < y - 1 \<longrightarrow> c i = v)"
    and eq: "(if \<not> v \<noteq> c k then f c v (Suc k) else Some (Suc k)) = Some y"
  show "k < y \<and> c (y - 1) \<noteq> v \<and> (\<forall>i. k \<le> i \<and> i < y - 1 \<longrightarrow> c i = v)"
  proof (cases "c k = v")
    case True
    with eq have "f c v (Suc k) = Some y" by auto
    from ih[OF this] have a: "Suc k < y" and b: "c (y - 1) \<noteq> v"
      and d: "\<forall>i. Suc k \<le> i \<and> i < y - 1 \<longrightarrow> c i = v" by auto
    have "\<forall>i. k \<le> i \<and> i < y - 1 \<longrightarrow> c i = v"
    proof (intro allI impI)
      fix i assume "k \<le> i \<and> i < y - 1"
      then show "c i = v" using d True by (cases "i = k") auto
    qed
    with a b show ?thesis by auto
  next
    case False
    with eq have "y = Suc k" by auto
    with False show ?thesis by auto
  qed
qed

lemma waitfor_coro_diverges:
  "(\<forall>i. n \<le> i \<longrightarrow> coro i = invert) \<Longrightarrow> waitfor_coro coro invert n = None"
proof (rule ccontr)
  assume all: "\<forall>i. n \<le> i \<longrightarrow> coro i = invert" and "waitfor_coro coro invert n \<noteq> None"
  then obtain m where "waitfor_coro coro invert n = Some m" by auto
  from waitfor_coro_sound[OF this] have "n < m" "coro (m - 1) \<noteq> invert" by auto
  then have "n \<le> m - 1" by simp
  with all have "coro (m - 1) = invert" by blast
  with \<open>coro (m - 1) \<noteq> invert\<close> show False by simp
qed


subsection \<open>The task supervisor\<close>

lemma tick_loop_frame: "snd (tick_loop lp w ts) = w"
  by (induction ts) (auto split: sum.splits option.splits)

lemma tick_loop_first_failed:
  "\<forall>u \<in> set pre. quiet (states lp u) \<Longrightarrow> states lp t = Failed e \<Longrightarrow> is_Exception e \<Longrightarrow>
   tick_loop lp w (pre @ t # post) = (Inl e, w)"
proof (induction pre)
  case Nil
  then show ?case by simp
next
  case (Cons u pre)
  then have q: "quiet (states lp u)" by simp
  have "tick_loop lp w ((u # pre) @ t # post) = tick_loop lp w (pre @ t # post)"
    using q by (cases "states lp u") (auto simp: quiet_def split: sum.splits option.splits)
  with Cons show ?case by simp
qed

lemma tick_loop_quiet:
  "\<forall>u \<in> set ts. quiet (states lp u) \<Longrightarrow> tick_loop lp w ts = (Inr (), w)"
proof (induction ts)
  case Nil
  show ?case by simp
next
  case (Cons u ts)
  then have q: "quiet (states lp u)" by simp
  have "tick_loop lp w (u # ts) = tick_loop lp w ts"
    using q by (cases "states lp u") (auto simp: quiet_def split: sum.splits option.splits)
  with Cons show ?case by simp
qed

lemma ticks_frame: "snd (ticks lps w) = w"
proof (induction lps arbitrary: w)
  case Nil
  show ?case by simp
next
  case (Cons lp lps)
  have "snd (tick lp w) = w" by (simp add: tick_def tick_loop_frame)
  then obtain r where r: "tick lp w = (r, w)" by (cases "tick lp w") auto
  obtain rs where rs: "ticks lps w = (rs, w)" using Cons[of w] by (cases "ticks lps w") auto
  show ?case by (simp add: r rs)
qed

lemma ticks_reraise:
  assumes "tw_tasks w = pre @ t # post"
    and "\<forall>lp \<in> set lps. (\<forall>u \<in> set pre. quiet (states lp u)) \<and> states lp t = Failed e"
    and "is_Exception e"
  shows "ticks lps w = (replicate (length lps) (Inl e), w)"
  using assms(2)
proof (induction lps)
  case Nil
  show ?case by simp
next
  case (Cons lp lps)
  then have "tick lp w = (Inl e, w)"
    using assms(1,3) by (simp add: tick_def tick_loop_first_failed)
  moreover have "ticks lps w = (replicate (length lps) (Inl e), w)"
    using Cons by simp
  ultimately show ?case by simp
qed

lemma unregister_removes:
  "tw_tasks w = pre @ t # post \<Longrightarrow> t \<notin> set pre \<Longrightarrow>
   fst (unregister lp w t) = Inr (w\<lparr>tw_tasks := pre @ post\<rparr>)"
  by (simp add: unregister_def Let_def remove1_append)

text \<open>
  C10, as stated, fails in its last clause: a failed task stays registered, but a tick
  raises at the first raising task of the list. With tasks 0 and 1 watched and task 1
  failed, the first tick raises the exception of task 1; once task 0 has failed too,
  the next tick raises the exception of task 0, and with task 0 cancelled it raises
  CancelledError, while task 1 is still registered and still failed.
\<close>

theorem tick_raises_earlier_task:
  "ticks [boom_pending, boom_late] two_tasks
     = ([Inl (Exc ''boom''), Inl (Exc ''late'')], two_tasks)
   \<and> tw_tasks two_tasks = [0, 1]
   \<and> states boom_pending 1 = Failed (Exc ''boom'')
   \<and> states boom_late 1 = Failed (Exc ''boom'')
   \<and> states boom_cancelled 1 = Failed (Exc ''boom'')
   \<and> tick boom_cancelled two_tasks = (Inl (BaseExc ''CancelledError''), two_tasks)"
  by (simp add: tick_def two_tasks_def boom_pending_def boom_late_def boom_cancelled_def)

text \<open>
  C10 (amended). A tick never changes the watcher, whatever it returns or raises, so
  the list of registered tasks is the same after any number of ticks. A registered task
  that failed with an exception has its exception raised by every tick at which no task
  before it in the list raises (none of them has failed with an exception or been
  cancelled), at every later state of the event loop, for as long as it is registered;
  \<^verbatim>\<open>unregister\<close> is what removes it.
\<close>

theorem tick_keeps_watch_set:
  "snd (tick lp w) = w
   \<and> snd (ticks lps w) = w
   \<and> (tw_tasks w = pre @ t # post
        \<and> (\<forall>lp \<in> set lps. (\<forall>u \<in> set pre. quiet (states lp u)) \<and> states lp t = Failed e)
        \<and> is_Exception e
      \<longrightarrow> fst (ticks lps w) = replicate (length lps) (Inl e))
   \<and> (tw_tasks w = pre @ t # post \<and> t \<notin> set pre
      \<longrightarrow> fst (unregister lp w t) = Inr (w\<lparr>tw_tasks := pre @ post\<rparr>))"
  using ticks_reraise[of w pre t post lps e]
  by (simp add: tick_def tick_loop_frame ticks_frame unregister_removes)

theorem tick_keeps_watch_set_witness:
  "ticks [failed_loop, failed_loop] watching = ([Inl (Exc ''boom''), Inl (Exc ''boom'')], watching)
   \<and> tick failed_loop watching = (Inl (Exc ''boom''), watching)
   \<and> fst (unregister failed_loop watching 1) = Inr (watching\<lparr>tw_tasks := [0, 2]\<rparr>)
   \<and> tick failed_loop (watching\<lparr>tw_tasks := [0, 2]\<rparr>) = (Inr (), watching\<lparr>tw_tasks := [0, 2]\<rparr>)"
proof -
  have t: "tw_tasks watching = [0] @ 1 # [2]" by (simp add: watching_def)
  have q: "\<forall>lp \<in> set [failed_loop, failed_loop].
             (\<forall>u \<in> set [0]. quiet (states lp u)) \<and> states lp 1 = Failed (Exc ''boom'')"
    by (simp add: failed_loop_def quiet_def)
  have e: "is_Exception (Exc ''boom'')" by simp
  have n: "(1::nat) \<notin> set [0]" by simp
  note k = tick_keeps_watch_set [of failed_loop watching "[failed_loop, failed_loop]" "[0]" 1 "[2]" "Exc ''boom''"]
  have a: "snd (ticks [failed_loop, failed_loop] watching) = watching"
    using k by blast
  have b: "fst (ticks [failed_loop, failed_loop] watching) = [Inl (Exc ''boom''), Inl (Exc ''boom'')]"
    using k t q e by simp
  have c: "fst (unregister failed_loop watching 1) = Inr (watching\<lparr>tw_tasks := [0, 2]\<rparr>)"
    using k t n by simp
  have d: "tick failed_loop watching = (Inl (Exc ''boom''), watching)"
    by (simp add: tick_def watching_def failed_loop_def)
  have f: "tick failed_loop (watching\<lparr>tw_tasks := [0, 2]\<rparr>) = (Inr (), watching\<lparr>tw_tasks := [0, 2]\<rparr>)"
    by (simp add: tick_def watching_def failed_loop_def)
  have ab: "ticks [failed_loop, failed_loop] watching
              = ([Inl (Exc ''boom''), Inl (Exc ''boom'')], watching)"
    using a b by (simp only: prod_eq_iff fst_conv snd_conv)
  show ?thesis by (intro conjI ab c d f)
qed

text \<open>
  C4. A second \<^verbatim>\<open>start_loop\<close> returns the task of the first and creates no other.
  The source guards with \<^verbatim>\<open>self._running\<close>, which no method ever sets: on a new
  watcher the second call creates a second loop task and returns it.
\<close>

theorem start_loop_not_idempotent:
  "start_loop lp init =
     Inr (next_task lp, init\<lparr>tw_selftask := Some (next_task lp)\<rparr>, snd (create_task lp))
   \<and> start_loop (snd (create_task lp)) (init\<lparr>tw_selftask := Some (next_task lp)\<rparr>) =
     Inr (Suc (next_task lp), init\<lparr>tw_selftask := Some (Suc (next_task lp))\<rparr>,
          snd (create_task (snd (create_task lp))))
   \<and> Suc (next_task lp) \<noteq> next_task lp
   \<and> states (snd (create_task (snd (create_task lp)))) (next_task lp) = Pending
   \<and> states (snd (create_task (snd (create_task lp)))) (Suc (next_task lp)) = Pending
   \<and> next_task (snd (create_task (snd (create_task lp)))) = next_task lp + 2"
  by (simp add: start_loop_def init_def create_task_def)

lemma start_loop_running: "start_loop lp w = Inr (t, w', lp') \<Longrightarrow> tw_running w' = tw_running w"
  by (auto simp: start_loop_def create_task_def split: if_splits option.splits)

text \<open>
  C5. With the first true answer at poll \<open>a\<close>, the first phase makes exactly the polls
  up to \<open>a\<close>; without completion the wait ends there. With completion the second phase
  starts at the next poll and ends at the first false answer \<open>b\<close> after it, and the
  wait does not end while the answers stay true.
\<close>

theorem waitfor_two_phases:
  assumes "n \<le> a" and "\<forall>i. n \<le> i \<and> i < a \<longrightarrow> \<not> coro i" and "coro a"
  shows "waitfor_coro coro False n = Some (Suc a)
    \<and> waitfor_impl coro False n = Some (Suc a)
    \<and> (a < b \<and> (\<forall>i. a < i \<and> i < b \<longrightarrow> coro i) \<and> \<not> coro b \<longrightarrow>
         waitfor_coro coro True (Suc a) = Some (Suc b) \<and> waitfor_impl coro True n = Some (Suc b))
    \<and> ((\<forall>i. a < i \<longrightarrow> coro i) \<longrightarrow> waitfor_impl coro True n = None)"
proof -
  have p1: "waitfor_coro coro False n = Some (Suc a)"
    using assms by (intro waitfor_coro_returns) auto
  have p2: "waitfor_coro coro True (Suc a) = Some (Suc b)"
    if "a < b" "\<forall>i. a < i \<and> i < b \<longrightarrow> coro i" "\<not> coro b"
    using that by (intro waitfor_coro_returns) auto
  have p3: "waitfor_coro coro True (Suc a) = None" if "\<forall>i. a < i \<longrightarrow> coro i"
    using that by (intro waitfor_coro_diverges) auto
  show ?thesis using p1 p2 p3 by (simp add: waitfor_impl_def)
qed

theorem waitfor_two_phases_witness:
  "waitfor_coro (poll_seq [False, False, True, True, False]) False 0 = Some 3
   \<and> waitfor_impl (poll_seq [False, False, True, True, False]) False 0 = Some 3
   \<and> waitfor_coro (poll_seq [False, False, True, True, False]) True 3 = Some 5
   \<and> waitfor_impl (poll_seq [False, False, True, True, False]) True 0 = Some 5"
proof -
  let ?c = "poll_seq [False, False, True, True, False]"
  have v: "\<not> ?c 0" "\<not> ?c 1" "?c 2" "?c 3" "\<not> ?c 4"
    by (simp_all add: poll_seq_def)
  have h1: "(0::nat) \<le> 2" by simp
  have h2: "\<forall>i. (0::nat) \<le> i \<and> i < 2 \<longrightarrow> \<not> ?c i"
    using v by (auto simp: less_Suc_eq numeral_2_eq_2)
  have h3: "(2::nat) < 4 \<and> (\<forall>i. 2 < i \<and> i < 4 \<longrightarrow> ?c i) \<and> \<not> ?c 4"
    using v by (auto simp: less_Suc_eq numeral_eq_Suc)
  show ?thesis
    using waitfor_two_phases[OF h1 h2 v(3), of 4] h3 by (simp add: numeral_eq_Suc)
qed

subsection \<open>The virtual machine\<close>

declare call_scan.simps [simp del]

lemma py_index_nth: "0 \<le> i \<Longrightarrow> i < int (length xs) \<Longrightarrow> py_index xs i = Inr (xs ! nat i)"
  by (simp add: py_index_def)

lemma py_index_append_mid: "py_index (pre @ x # post) (int (length pre)) = Inr x"
  by (simp add: py_index_def)

lemma step_fetch:
  "running vm \<Longrightarrow> py_index (program vm) (ip vm) = Inr i \<Longrightarrow>
   step orc vm =
     bind_err (exec_instruction orc vm i)
       (\<lambda>vm'. if ip vm' \<ge> int (length (program vm')) then Inr (stop vm') else Inr vm')"
  by (simp add: step_def)

lemma exec_enter_until:
  "kind i = enter_until \<Longrightarrow> exec_instruction orc vm i = Inl (VMError Unimplemented_instruction)"
  by (simp add: exec_instruction_def)

lemma compile_until_layout:
  "compile_stmt (UntilStmt cond body) = Inr code \<Longrightarrow>
   \<exists>b. compile body = Inr b \<and>
       code = Instr enter_until (PList [PExpr cond, PInt (int (length b) + 2)])
              # b @ [Instr jump (PInt (- int (length b))), Instr nop PNone]"
  by (auto simp: Let_def split: sum.splits)

text \<open>
  C1. Executing \<open>enter_until\<close> evaluates the condition and enters the loop body, so
  the body of every compiled \<^verbatim>\<open>until\<close> runs at least once. \<^verbatim>\<open>VM.step\<close> has no
  case for \<open>enter_until\<close>: the instruction that \<^verbatim>\<open>compile_stmt\<close> puts in front of
  the body falls to the default case and raises the VM error, and no instruction of the
  body is executed.
\<close>

theorem until_body_never_runs:
  assumes "compile_stmt (UntilStmt cond body) = Inr code"
    and "program vm = pre @ code @ post" and "running vm" and "ip vm = int (length pre)"
  shows "step orc vm = Inl (VMError Unimplemented_instruction)
         \<and> steps world t (Suc n) vm = Inl (VMError Unimplemented_instruction)"
proof -
  from compile_until_layout[OF assms(1)] obtain b where
    code: "code = Instr enter_until (PList [PExpr cond, PInt (int (length b) + 2)])
              # b @ [Instr jump (PInt (- int (length b))), Instr nop PNone]" by blast
  have "py_index (program vm) (ip vm)
          = Inr (Instr enter_until (PList [PExpr cond, PInt (int (length b) + 2)]))"
    using assms(2,4) code by (simp add: py_index_append_mid)
  then have "\<And>orc. step orc vm = Inl (VMError Unimplemented_instruction)"
    using assms(3) by (simp add: step_fetch exec_enter_until)
  then show ?thesis by simp
qed

lemma call_scan_found:
  "0 \<le> j \<Longrightarrow> j < i \<Longrightarrow> i \<le> int (length prog) \<Longrightarrow>
   kind (prog ! nat j) = label \<Longrightarrow> py_eq (data (prog ! nat j)) w \<Longrightarrow>
   (\<forall>k. j < k \<and> k < i \<longrightarrow> \<not> (kind (prog ! nat k) = label \<and> py_eq (data (prog ! nat k)) w)) \<Longrightarrow>
   call_scan prog w i = Inr j"
proof (induction prog w i rule: call_scan.induct)
  case (1 prog w i)
  have idx: "py_index prog (i - 1) = Inr (prog ! nat (i - 1))"
    using 1(2,3,4) by (simp add: py_index_def)
  show ?case
  proof (cases "i - 1 = j")
    case True
    with 1 idx show ?thesis by (subst call_scan.simps) simp
  next
    case False
    with 1(3) have lt: "j < i - 1" by simp
    with 1(7) have nm: "kind (prog ! nat (i - 1)) \<noteq> label \<or> \<not> py_eq (data (prog ! nat (i - 1))) w"
      by simp
    have "call_scan prog w (i - 1) = Inr j"
      using 1(2,4,5,6,7) lt idx nm by (intro 1(1)) auto
    with nm idx 1(2,3) show ?thesis by (subst call_scan.simps) auto
  qed
qed

lemma call_scan_missing:
  "i \<le> int (length prog) \<Longrightarrow>
   (\<forall>k. 0 \<le> k \<and> k < i \<longrightarrow> \<not> (kind (prog ! nat k) = label \<and> py_eq (data (prog ! nat k)) w)) \<Longrightarrow>
   call_scan prog w i = Inl (VMError Unable_to_find_label)"
proof (induction prog w i rule: call_scan.induct)
  case (1 prog w i)
  show ?case
  proof (cases "i - 1 < 0")
    case True
    then show ?thesis by (subst call_scan.simps) simp
  next
    case False
    have idx: "py_index prog (i - 1) = Inr (prog ! nat (i - 1))"
      using 1(2) False by (simp add: py_index_def)
    have nm: "kind (prog ! nat (i - 1)) \<noteq> label \<or> \<not> py_eq (data (prog ! nat (i - 1))) w"
      using 1(3) False by simp
    have "call_scan prog w (i - 1) = Inl (VMError Unable_to_find_label)"
      using 1(2,3) False idx nm by (intro 1(1)) auto
    with nm idx False show ?thesis by (subst call_scan.simps) auto
  qed
qed

lemma call_scan_sound:
  "i \<le> int (length prog) \<Longrightarrow> call_scan prog w i = Inr j \<Longrightarrow>
   0 \<le> j \<and> j < i \<and> kind (prog ! nat j) = label \<and> py_eq (data (prog ! nat j)) w \<and>
   (\<forall>k. j < k \<and> k < i \<longrightarrow> \<not> (kind (prog ! nat k) = label \<and> py_eq (data (prog ! nat k)) w))"
proof (induction prog w i rule: call_scan.induct)
  case (1 prog w i)
  have pos: "\<not> i - 1 < 0"
    using 1(3) by (subst (asm) call_scan.simps) (auto split: if_splits)
  have idx: "py_index prog (i - 1) = Inr (prog ! nat (i - 1))"
    using 1(2) pos by (simp add: py_index_def)
  show ?case
  proof (cases "kind (prog ! nat (i - 1)) \<noteq> label \<or> \<not> py_eq (data (prog ! nat (i - 1))) w")
    case True
    then have rec: "call_scan prog w (i - 1) = Inr j"
      using 1(3) pos idx by (subst (asm) call_scan.simps) auto
    have ih: "0 \<le> j \<and> j < i - 1 \<and> kind (prog ! nat j) = label \<and> py_eq (data (prog ! nat j)) w \<and>
      (\<forall>k. j < k \<and> k < i - 1 \<longrightarrow> \<not> (kind (prog ! nat k) = label \<and> py_eq (data (prog ! nat k)) w))"
      using 1(2) pos idx True rec by (intro 1(1)) auto
    have "\<forall>k. j < k \<and> k < i \<longrightarrow> \<not> (kind (prog ! nat k) = label \<and> py_eq (data (prog ! nat k)) w)"
    proof (intro allI impI)
      fix k assume k: "j < k \<and> k < i"
      show "\<not> (kind (prog ! nat k) = label \<and> py_eq (data (prog ! nat k)) w)"
      proof (cases "k = i - 1")
        case True
        with \<open>kind (prog ! nat (i - 1)) \<noteq> label \<or> \<not> py_eq (data (prog ! nat (i - 1))) w\<close>
        show ?thesis by simp
      next
        case False
        with k have "j < k \<and> k < i - 1" by simp
        with ih show ?thesis by blast
      qed
    qed
    with ih show ?thesis by simp
  next
    case False
    then have "j = i - 1"
      using 1(3) pos idx by (subst (asm) call_scan.simps) auto
    with False pos show ?thesis by auto
  qed
qed


lemma step_call:
  assumes "running vm" and "0 \<le> ip vm" and "ip vm < int (length (program vm))"
    and "kind (program vm ! nat (ip vm)) = call"
  shows "step orc vm =
     (case call_scan (program vm) (data (program vm ! nat (ip vm))) (ip vm) of
        Inl e \<Rightarrow> Inl e
      | Inr j \<Rightarrow> Inr (vm\<lparr>callstack := callstack vm @ [ip vm + 1], ip := j\<rparr>))"
proof (cases "call_scan (program vm) (data (program vm ! nat (ip vm))) (ip vm)")
  case (Inl e)
  then show ?thesis
    using assms by (simp add: step_fetch py_index_nth exec_instruction_def exec_call_def)
next
  case (Inr j)
  from call_scan_sound[OF _ Inr] assms(3) have "j < ip vm" by simp
  with Inr show ?thesis
    using assms by (simp add: step_fetch py_index_nth exec_instruction_def exec_call_def)
qed

lemma step_ret:
  assumes "running vm" and "0 \<le> ip vm" and "ip vm < int (length (program vm))"
    and "kind (program vm ! nat (ip vm)) = ret"
  shows "callstack vm = [] \<Longrightarrow> step orc vm = Inl IndexError"
    and "callstack vm = cs @ [r] \<Longrightarrow>
         step orc vm = Inr (vm\<lparr>ip := r, callstack := cs, running := r < int (length (program vm))\<rparr>)"
  using assms
  by (auto simp add: step_fetch py_index_nth exec_instruction_def exec_ret_def stop_def)

lemma call_scan_error:
  "i \<le> int (length prog) \<Longrightarrow> call_scan prog w i = Inl e \<Longrightarrow>
   e = VMError Unable_to_find_label \<and>
   (\<forall>k. 0 \<le> k \<and> k < i \<longrightarrow> \<not> (kind (prog ! nat k) = label \<and> py_eq (data (prog ! nat k)) w))"
proof (induction prog w i rule: call_scan.induct)
  case (1 prog w i)
  show ?case
  proof (cases "i - 1 < 0")
    case True
    with 1(3) show ?thesis by (subst (asm) call_scan.simps) auto
  next
    case False
    have idx: "py_index prog (i - 1) = Inr (prog ! nat (i - 1))"
      using 1(2) False by (simp add: py_index_def)
    have nm: "kind (prog ! nat (i - 1)) \<noteq> label \<or> \<not> py_eq (data (prog ! nat (i - 1))) w"
      using 1(3) False idx by (subst (asm) call_scan.simps) (auto split: if_splits)
    then have rec: "call_scan prog w (i - 1) = Inl e"
      using 1(3) False idx by (subst (asm) call_scan.simps) auto
    have ih: "e = VMError Unable_to_find_label \<and>
      (\<forall>k. 0 \<le> k \<and> k < i - 1 \<longrightarrow> \<not> (kind (prog ! nat k) = label \<and> py_eq (data (prog ! nat k)) w))"
      using 1(2) False idx nm rec by (intro 1(1)) auto
    have "\<forall>k. 0 \<le> k \<and> k < i \<longrightarrow> \<not> (kind (prog ! nat k) = label \<and> py_eq (data (prog ! nat k)) w)"
    proof (intro allI impI)
      fix k assume k: "0 \<le> k \<and> k < i"
      show "\<not> (kind (prog ! nat k) = label \<and> py_eq (data (prog ! nat k)) w)"
      proof (cases "k = i - 1")
        case True
        with nm show ?thesis by simp
      next
        case False
        with k have "0 \<le> k \<and> k < i - 1" by simp
        with ih show ?thesis by blast
      qed
    qed
    with ih show ?thesis by simp
  qed
qed

lemma call_scan_finds:
  assumes "i \<le> int (length prog)" and "0 \<le> j0" and "j0 < i" and "label_at prog w j0"
  shows "\<exists>j. call_scan prog w i = Inr j \<and> 0 \<le> j \<and> j < i"
proof (cases "call_scan prog w i")
  case (Inl e)
  from call_scan_error[OF assms(1) Inl] assms(2,3,4) show ?thesis
    by (auto simp: label_at_def)
next
  case (Inr j)
  with call_scan_sound[OF assms(1) Inr] show ?thesis by simp
qed

lemma run_at_calls:
  "running vm \<Longrightarrow>
   \<forall>p \<in> set sites. 0 \<le> p \<and> p < int (length (program vm)) \<and> kind (program vm ! nat p) = call
      \<and> (\<exists>j. 0 \<le> j \<and> j < p \<and> label_at (program vm) (data (program vm ! nat p)) j) \<Longrightarrow>
   \<exists>targets vm1. run_at orc sites vm = Inr (targets, vm1) \<and> running vm1
      \<and> program vm1 = program vm \<and> clients vm1 = clients vm \<and> killed vm1 = killed vm
      \<and> callstack vm1 = callstack vm @ map (\<lambda>p. p + 1) sites"
proof (induction sites arbitrary: vm)
  case Nil
  then show ?case by simp
next
  case (Cons p ps)
  let ?w = "data (program vm ! nat p)"
  let ?vm = "vm\<lparr>ip := p\<rparr>"
  from Cons.prems(2) have p: "0 \<le> p" "p < int (length (program vm))"
    "kind (program vm ! nat p) = call" by auto
  from Cons.prems(2) obtain j0 where j0: "0 \<le> j0" "j0 < p" "label_at (program vm) ?w j0" by auto
  from call_scan_finds[OF _ j0] p obtain j where
    j: "call_scan (program vm) ?w p = Inr j" "0 \<le> j" "j < p" by auto
  have st: "step orc ?vm = Inr (?vm\<lparr>callstack := callstack vm @ [p + 1], ip := j\<rparr>)"
    using step_call[of ?vm orc] Cons.prems(1) p j by simp
  let ?vm' = "?vm\<lparr>callstack := callstack vm @ [p + 1], ip := j\<rparr>"
  have "\<exists>targets vm1. run_at orc ps ?vm' = Inr (targets, vm1) \<and> running vm1
      \<and> program vm1 = program ?vm' \<and> clients vm1 = clients ?vm' \<and> killed vm1 = killed ?vm'
      \<and> callstack vm1 = callstack ?vm' @ map (\<lambda>p. p + 1) ps"
    using Cons.prems by (intro Cons.IH) auto
  then obtain targets vm1 where r: "run_at orc ps ?vm' = Inr (targets, vm1)" "running vm1"
      "program vm1 = program vm" "clients vm1 = clients vm" "killed vm1 = killed vm"
      "callstack vm1 = (callstack vm @ [p + 1]) @ map (\<lambda>p. p + 1) ps" by auto
  show ?case using st r by simp
qed

lemma run_at_rets:
  "running vm \<Longrightarrow> callstack vm = base @ rs \<Longrightarrow> length rets = length rs \<Longrightarrow>
   \<forall>q \<in> set rets. 0 \<le> q \<and> q < int (length (program vm)) \<and> kind (program vm ! nat q) = ret \<Longrightarrow>
   \<forall>r \<in> set (tl rs). r < int (length (program vm)) \<Longrightarrow>
   \<exists>vm2. run_at orc rets vm = Inr (rev rs, vm2) \<and> callstack vm2 = base
      \<and> program vm2 = program vm"
proof (induction rets arbitrary: vm rs)
  case Nil
  then show ?case by simp
next
  case (Cons q qs)
  from Cons.prems(3) have "rs \<noteq> []" by auto
  then obtain rs' r where rs: "rs = rs' @ [r]" by (metis rev_exhaust)
  let ?vm = "vm\<lparr>ip := q\<rparr>"
  from Cons.prems(4) have q: "0 \<le> q" "q < int (length (program vm))"
    "kind (program vm ! nat q) = ret" by auto
  let ?vm' = "?vm\<lparr>ip := r, callstack := base @ rs', running := r < int (length (program ?vm))\<rparr>"
  have st: "step orc ?vm = Inr ?vm'"
    using step_ret(2)[of ?vm "base @ rs'" r orc] Cons.prems(1,2) q rs by simp
  show ?case
  proof (cases "rs' = []")
    case True
    with Cons.prems(3) rs have "qs = []" by simp
    with st rs True show ?thesis by simp
  next
    case False
    then have t: "tl rs = tl rs' @ [r]" using rs by simp
    with Cons.prems(5) have r: "r < int (length (program vm))" by simp
    have "\<exists>vm2. run_at orc qs ?vm' = Inr (rev rs', vm2) \<and> callstack vm2 = base
        \<and> program vm2 = program ?vm'"
      using Cons.prems rs r t by (intro Cons.IH) auto
    then obtain vm2 where v: "run_at orc qs ?vm' = Inr (rev rs', vm2)" "callstack vm2 = base"
       "program vm2 = program vm" by auto
    show ?thesis using st v rs by simp
  qed
qed

text \<open>
  C3. A \<open>call\<close> pushes the pointer plus one and moves the pointer to the nearest label
  with the wanted payload strictly below the call site; without such a label it raises
  the VM error. A \<open>ret\<close> pops the last pushed address into the pointer and raises
  IndexError on an empty stack. Hence nested calls at \<open>sites\<close>, executed in this
  order, are returned from in the reverse order, each \<open>ret\<close> resuming at the
  instruction after its call, and the call stack is then what it was before. (An inner
  call has an instruction after it; the machine stops when the outermost return leaves
  the program.)
\<close>

theorem call_ret_lifo:
  fixes vm :: "'c VM"
  assumes "running vm" and "0 \<le> ip vm" and "ip vm < int (length (program vm))"
  shows
   "(kind (program vm ! nat (ip vm)) = call \<and> 0 \<le> j \<and> j < ip vm
       \<and> label_at (program vm) (data (program vm ! nat (ip vm))) j
       \<and> (\<forall>k. j < k \<and> k < ip vm \<longrightarrow> \<not> label_at (program vm) (data (program vm ! nat (ip vm))) k)
     \<longrightarrow> step orc vm = Inr (vm\<lparr>callstack := callstack vm @ [ip vm + 1], ip := j\<rparr>))
    \<and> (kind (program vm ! nat (ip vm)) = call
       \<and> (\<forall>k. 0 \<le> k \<and> k < ip vm \<longrightarrow> \<not> label_at (program vm) (data (program vm ! nat (ip vm))) k)
     \<longrightarrow> step orc vm = Inl (VMError Unable_to_find_label))
    \<and> (kind (program vm ! nat (ip vm)) = ret \<and> callstack vm = [] \<longrightarrow> step orc vm = Inl IndexError)
    \<and> (kind (program vm ! nat (ip vm)) = ret \<and> callstack vm = cs @ [r]
     \<longrightarrow> step orc vm =
           Inr (vm\<lparr>ip := r, callstack := cs, running := r < int (length (program vm))\<rparr>))
    \<and> ((\<forall>p \<in> set sites. 0 \<le> p \<and> p < int (length (program vm))
              \<and> kind (program vm ! nat p) = call
              \<and> (\<exists>j. 0 \<le> j \<and> j < p \<and> label_at (program vm) (data (program vm ! nat p)) j))
        \<and> (\<forall>p \<in> set (tl sites). p + 1 < int (length (program vm)))
        \<and> (\<forall>q \<in> set rets. 0 \<le> q \<and> q < int (length (program vm))
              \<and> kind (program vm ! nat q) = ret)
        \<and> length rets = length sites
     \<longrightarrow> (\<exists>targets vm1 vm2.
            run_at orc sites vm = Inr (targets, vm1)
            \<and> callstack vm1 = callstack vm @ map (\<lambda>p. p + 1) sites
            \<and> run_at orc rets vm1 = Inr (rev (map (\<lambda>p. p + 1) sites), vm2)
            \<and> callstack vm2 = callstack vm))"
proof (intro conjI impI)
  assume a: "kind (program vm ! nat (ip vm)) = call \<and> 0 \<le> j \<and> j < ip vm
       \<and> label_at (program vm) (data (program vm ! nat (ip vm))) j
       \<and> (\<forall>k. j < k \<and> k < ip vm \<longrightarrow> \<not> label_at (program vm) (data (program vm ! nat (ip vm))) k)"
  then have "call_scan (program vm) (data (program vm ! nat (ip vm))) (ip vm) = Inr j"
    using assms(3) by (intro call_scan_found) (auto simp: label_at_def)
  then show "step orc vm = Inr (vm\<lparr>callstack := callstack vm @ [ip vm + 1], ip := j\<rparr>)"
    using step_call[OF assms, of orc] a by simp
next
  assume a: "kind (program vm ! nat (ip vm)) = call
       \<and> (\<forall>k. 0 \<le> k \<and> k < ip vm \<longrightarrow> \<not> label_at (program vm) (data (program vm ! nat (ip vm))) k)"
  then have "call_scan (program vm) (data (program vm ! nat (ip vm))) (ip vm)
               = Inl (VMError Unable_to_find_label)"
    using assms(3) by (intro call_scan_missing) (auto simp: label_at_def)
  then show "step orc vm = Inl (VMError Unable_to_find_label)"
    using step_call[OF assms, of orc] a by simp
next
  assume "kind (program vm ! nat (ip vm)) = ret \<and> callstack vm = []"
  then show "step orc vm = Inl IndexError"
    using step_ret(1)[OF assms, of orc] by simp
next
  assume "kind (program vm ! nat (ip vm)) = ret \<and> callstack vm = cs @ [r]"
  then show "step orc vm =
           Inr (vm\<lparr>ip := r, callstack := cs, running := r < int (length (program vm))\<rparr>)"
    using step_ret(2)[OF assms, of cs r orc] by simp
next
  assume a: "(\<forall>p \<in> set sites. 0 \<le> p \<and> p < int (length (program vm))
              \<and> kind (program vm ! nat p) = call
              \<and> (\<exists>j. 0 \<le> j \<and> j < p \<and> label_at (program vm) (data (program vm ! nat p)) j))
        \<and> (\<forall>p \<in> set (tl sites). p + 1 < int (length (program vm)))
        \<and> (\<forall>q \<in> set rets. 0 \<le> q \<and> q < int (length (program vm))
              \<and> kind (program vm ! nat q) = ret)
        \<and> length rets = length sites"
  then have "\<forall>p \<in> set sites. 0 \<le> p \<and> p < int (length (program vm))
      \<and> kind (program vm ! nat p) = call
      \<and> (\<exists>j. 0 \<le> j \<and> j < p \<and> label_at (program vm) (data (program vm ! nat p)) j)"
    by blast
  from run_at_calls[OF assms(1) this, of orc] obtain targets vm1 where
    c: "run_at orc sites vm = Inr (targets, vm1)" "running vm1" "program vm1 = program vm"
       "callstack vm1 = callstack vm @ map (\<lambda>p. p + 1) sites" by blast
  have tl: "\<forall>r \<in> set (tl (map (\<lambda>p. p + 1) sites)). r < int (length (program vm1))"
    using a c(3) by (auto simp: map_tl[symmetric])
  have "\<exists>vm2. run_at orc rets vm1 = Inr (rev (map (\<lambda>p. p + 1) sites), vm2)
          \<and> callstack vm2 = callstack vm \<and> program vm2 = program vm1"
    using a c tl by (intro run_at_rets) auto
  with c show "\<exists>targets vm1 vm2.
            run_at orc sites vm = Inr (targets, vm1)
            \<and> callstack vm1 = callstack vm @ map (\<lambda>p. p + 1) sites
            \<and> run_at orc rets vm1 = Inr (rev (map (\<lambda>p. p + 1) sites), vm2)
            \<and> callstack vm2 = callstack vm" by blast
qed






lemma compile_if_layout:
  "compile branch_false = Inr fs \<Longrightarrow> compile branch_true = Inr ts \<Longrightarrow>
   compile_stmt (IfStmt cond branch_true branch_false) =
     Inr (Instr jump_if (PList [PExpr cond, PInt (int (length fs) + 2)]) # fs
          @ Instr jump (PInt (int (length ts) + 1)) # ts @ [Instr nop PNone])"
  by simp


subsection \<open>The example programs\<close>

lemma py_eq_PEnum [simp]: "py_eq (PEnum a b) (PEnum c d) = (a = c \<and> b = d)"
  by (simp add: py_eq.simps)

lemma py_eq_PStr [simp]: "py_eq (PStr a) (PStr b) = (a = b)"
  by (simp add: py_eq.simps)

lemma compile_until_code: "compile_stmt until_stmt = Inr until_code"
  by (simp add: until_stmt_def until_code_def compile_command_def py_index_def)

theorem until_body_never_runs_witness:
  "compile_stmt until_stmt = Inr until_code
   \<and> step quiet_env (loaded [] until_code) = Inl (VMError Unimplemented_instruction)
   \<and> steps quiet_world 0 (Suc 0) (loaded [] until_code) = Inl (VMError Unimplemented_instruction)"
proof -
  have c: "compile_stmt (UntilStmt (NumberExpression (PInt 0))
             [CommandStmt (Command sleep_cmd [PExpr (NumberExpression (PFloat 1))] None)])
           = Inr until_code"
    using compile_until_code by (simp add: until_stmt_def)
  have p: "program (loaded [] until_code) = [] @ until_code @ []"
    by (simp add: loaded_def)
  have r: "running (loaded ([]::string list) until_code)" by (simp add: loaded_def)
  have i: "ip (loaded ([]::string list) until_code) = int (length ([]::Instruction list))"
    by (simp add: loaded_def)
  show ?thesis
    using until_body_never_runs [OF c p r i, of quiet_env quiet_world 0 0] compile_until_code
    by simp
qed



lemma steps_nested:
  "steps quiet_world 0 8 (loaded [] nested_prog)
     = Inr ([0, 6, 3, 4, 1, 2, 5, 7], (loaded [] nested_prog)\<lparr>running := False, ip := 8\<rparr>)"
  by (simp add: eval_nat_numeral)
     (simp add: nested_prog_def loaded_def step_def exec_instruction_def exec_call_def
        exec_ret_def call_scan.simps advance_def py_index_def stop_def quiet_world_def)




theorem call_ret_lifo_witness:
  "steps quiet_world 0 8 (loaded [] nested_prog)
     = Inr ([0, 6, 3, 4, 1, 2, 5, 7], (loaded [] nested_prog)\<lparr>running := False, ip := 8\<rparr>)
   \<and> step quiet_env ((loaded [] nested_prog)\<lparr>ip := 6\<rparr>)
       = Inr ((loaded [] nested_prog)\<lparr>callstack := [7], ip := 3\<rparr>)
   \<and> step quiet_env (loaded [] [Instr call (PStr ''zz'')]) = Inl (VMError Unable_to_find_label)
   \<and> step quiet_env ((loaded [] nested_prog)\<lparr>ip := 2\<rparr>) = Inl IndexError
   \<and> step quiet_env ((loaded [] nested_prog)\<lparr>ip := 2, callstack := [7, 5]\<rparr>)
       = Inr ((loaded [] nested_prog)\<lparr>ip := 5, callstack := [7]\<rparr>)
   \<and> (\<exists>targets vm1 vm2.
         run_at quiet_env [6, 4] (loaded [] nested_prog) = Inr (targets, vm1)
         \<and> callstack vm1 = [7, 5]
         \<and> run_at quiet_env [2, 5] vm1 = Inr ([5, 7], vm2)
         \<and> callstack vm2 = [])"
proof -
  let ?V = "loaded ([]::string list) nested_prog"
  have len: "int (length (program ?V)) = 8" by (simp add: loaded_def nested_prog_def)
  let ?A = "?V\<lparr>ip := 6\<rparr>"
  have A0: "running ?A" "0 \<le> ip ?A" "ip ?A < int (length (program ?A))"
    by (simp_all add: loaded_def nested_prog_def)
  have A1: "\<forall>k. 3 < k \<and> k < ip ?A \<longrightarrow> \<not> label_at (program ?A) (data (program ?A ! nat (ip ?A))) k"
  proof (intro allI impI)
    fix k :: int assume "3 < k \<and> k < ip ?A"
    then have "k = 4 \<or> k = 5" by (simp add: loaded_def) arith
    then show "\<not> label_at (program ?A) (data (program ?A ! nat (ip ?A))) k"
      by (auto simp: label_at_def loaded_def nested_prog_def)
  qed
  have A2: "kind (program ?A ! nat (ip ?A)) = call \<and> 0 \<le> (3::int) \<and> 3 < ip ?A
             \<and> label_at (program ?A) (data (program ?A ! nat (ip ?A))) 3"
    by (simp add: label_at_def loaded_def nested_prog_def)
  have a: "step quiet_env ?A = Inr (?A\<lparr>callstack := callstack ?A @ [ip ?A + 1], ip := 3\<rparr>)"
    using call_ret_lifo [OF A0, where j = 3 and orc = quiet_env] A1 A2 by blast
  let ?B = "loaded ([]::string list) [Instr call (PStr ''zz'')]"
  have B0: "running ?B" "0 \<le> ip ?B" "ip ?B < int (length (program ?B))"
    by (simp_all add: loaded_def)
  have B1: "kind (program ?B ! nat (ip ?B)) = call
     \<and> (\<forall>k. 0 \<le> k \<and> k < ip ?B \<longrightarrow> \<not> label_at (program ?B) (data (program ?B ! nat (ip ?B))) k)"
    by (auto simp add: loaded_def)
  have b: "step quiet_env ?B = Inl (VMError Unable_to_find_label)"
    using call_ret_lifo [OF B0, where orc = quiet_env] B1 by blast
  let ?C = "?V\<lparr>ip := 2\<rparr>"
  have C0: "running ?C" "0 \<le> ip ?C" "ip ?C < int (length (program ?C))"
    by (simp_all add: loaded_def nested_prog_def)
  have C1: "kind (program ?C ! nat (ip ?C)) = ret \<and> callstack ?C = []"
    by (simp add: loaded_def nested_prog_def)
  have c: "step quiet_env ?C = Inl IndexError"
    using call_ret_lifo [OF C0, where orc = quiet_env] C1 by blast
  let ?D = "?V\<lparr>ip := 2, callstack := [7, 5]\<rparr>"
  have D0: "running ?D" "0 \<le> ip ?D" "ip ?D < int (length (program ?D))"
    by (simp_all add: loaded_def nested_prog_def)
  have D1: "kind (program ?D ! nat (ip ?D)) = ret \<and> callstack ?D = [7] @ [5]"
    by (simp add: loaded_def nested_prog_def)
  have d: "step quiet_env ?D
             = Inr (?D\<lparr>ip := 5, callstack := [7], running := 5 < int (length (program ?D))\<rparr>)"
    using call_ret_lifo [OF D0, where orc = quiet_env and cs = "[7]" and r = 5] D1 by blast
  have E0: "running ?V" "0 \<le> ip ?V" "ip ?V < int (length (program ?V))"
    by (simp_all add: loaded_def nested_prog_def)
  have x6: "\<exists>j. 0 \<le> j \<and> j < 6 \<and> label_at (program ?V) (data (program ?V ! nat 6)) j"
    by (rule exI[of _ 3]) (simp add: label_at_def loaded_def nested_prog_def)
  have x4: "\<exists>j. 0 \<le> j \<and> j < 4 \<and> label_at (program ?V) (data (program ?V ! nat 4)) j"
    by (rule exI[of _ 1]) (simp add: label_at_def loaded_def nested_prog_def)
  have E1: "\<forall>p \<in> set [6, 4]. 0 \<le> p \<and> p < int (length (program ?V))
              \<and> kind (program ?V ! nat p) = call
              \<and> (\<exists>j. 0 \<le> j \<and> j < p \<and> label_at (program ?V) (data (program ?V ! nat p)) j)"
    using x6 x4 by (simp add: loaded_def nested_prog_def)
  have E1': "\<forall>p \<in> set (tl [6, 4]). p + 1 < int (length (program ?V))"
    by (simp add: loaded_def nested_prog_def)
  have E2: "\<forall>q \<in> set [2, 5]. 0 \<le> q \<and> q < int (length (program ?V))
              \<and> kind (program ?V ! nat q) = ret"
    by (simp add: loaded_def nested_prog_def)
  have E3: "length [2, 5::int] = length [6, 4::int]" by simp
  have e: "\<exists>targets vm1 vm2.
            run_at quiet_env [6, 4] ?V = Inr (targets, vm1)
            \<and> callstack vm1 = callstack ?V @ map (\<lambda>p. p + 1) [6, 4]
            \<and> run_at quiet_env [2, 5] vm1 = Inr (rev (map (\<lambda>p. p + 1) [6, 4]), vm2)
            \<and> callstack vm2 = callstack ?V"
    using call_ret_lifo [OF E0, where orc = quiet_env and sites = "[6, 4]" and rets = "[2, 5]"]
          E1 E1' E2 E3 by blast
  have a': "step quiet_env ?A = Inr (?V\<lparr>callstack := [7], ip := 3\<rparr>)"
    using a by (simp add: loaded_def)
  have d': "step quiet_env ?D = Inr (?V\<lparr>ip := 5, callstack := [7]\<rparr>)"
    using d by (simp add: loaded_def nested_prog_def)
  have e': "\<exists>targets vm1 vm2.
         run_at quiet_env [6, 4] ?V = Inr (targets, vm1)
         \<and> callstack vm1 = [7, 5]
         \<and> run_at quiet_env [2, 5] vm1 = Inr ([5, 7], vm2)
         \<and> callstack vm2 = []"
    using e by (simp add: loaded_def del: run_at.simps)
  show ?thesis by (intro conjI steps_nested a' b c d' e')
qed

end
